theory Spec2Isabelle
  imports Main "HOL-Library.Word" "HOL-Library.Signed_Division" "HOL-Library.Multiset" "HOL-Library.AList"
    "HOL-Library.Code_Target_Numeral"
begin

section \<open>The vote-extension oracle: data model\<close>

text \<open>
  The Go sources are \<^verbatim>\<open>abci/vote_exts.go\<close> (aggregator, ExtendVote, VerifyVoteExtension),
  the proposal handler with \<^verbatim>\<open>computeStakeWeightedOraclePrices\<close> (PrepareProposal,
  ProcessProposal) and the \<^verbatim>\<open>keepers\<close> package.

  Conventions of the embedding.
  \<^item> A Go map that the code only indexes (\<^verbatim>\<open>m[k]\<close>, \<^verbatim>\<open>m[k] = v\<close>) is a HOL map.
  \<^item> A Go map that the code ranges over or serializes is an association list with
    distinct keys; the order of the list stands for one iteration order, and a \<^verbatim>\<open>nil\<close>
    map and an empty map are both \<open>[]\<close>.
  \<^item> \<^verbatim>\<open>int64\<close> is \<open>64 word\<close>, read by \<open>sint\<close>; additions wrap as Go's do.
  \<^item> A Go function returning \<^verbatim>\<open>(T, error)\<close> returns \<open>error + T\<close>; a function that can
    panic returns an \<open>outcome\<close>.
  \<^item> Byte slices are \<open>string\<close> (a list of 8-bit characters).
\<close>

type_synonym bytes = string

datatype panic = DivisionByZero

datatype 'a outcome = Panics panic | Returns 'a

datatype error =
    SyntaxError
  | ProviderError
  | ProviderTimedOut string
  | NoExchangeRates
  | PriceNotFound string
  | HeightMismatch "64 word" "64 word"
  | FailedToUnmarshal error
  | FailedToMarshal error
  | FailedToVerifyPrices bytes error

subsection \<open>Decimals\<close>

text \<open>
  Modelled from the spec: the decimal type \<^verbatim>\<open>sdk.Dec\<close>, which belongs to the Cosmos SDK
  and not to this repository. It is a fixed-point decimal with 18 fractional digits over
  a big integer, and the specification takes it as an arbitrary-precision decimal with
  the standard operations. The model is that integer (the value times \<open>10 ^ 18\<close>).
  Addition and multiplication by an \<^verbatim>\<open>int64\<close> are exact; the library's bound on the
  size of the integer is left out. \<^verbatim>\<open>QuoInt64\<close> is \<^verbatim>\<open>big.Int.Quo\<close>: it truncates towards
  zero, and a zero divisor is a run-time panic.
\<close>

type_synonym Dec = int

definition ZeroDec :: Dec where
  "ZeroDec = 0"

definition Add :: "Dec \<Rightarrow> Dec \<Rightarrow> Dec" where
  "Add d d2 = d + d2"

definition MulInt64 :: "Dec \<Rightarrow> 64 word \<Rightarrow> Dec" where
  "MulInt64 d i = d * sint i"

definition QuoInt64 :: "Dec \<Rightarrow> 64 word \<Rightarrow> Dec outcome" where
  "QuoInt64 d i = (if i = 0 then Panics DivisionByZero else Returns (d sdiv sint i))"

subsection \<open>The keepers package\<close>

record TickerPrice =
  Price :: Dec
  Volume :: Dec

record CandlePrice =
  CandlePrice_Price :: Dec
  CandlePrice_Volume :: Dec
  TimeStamp :: "64 word"

type_synonym AggregatedProviderPrices = "string \<rightharpoonup> (string \<rightharpoonup> TickerPrice)"

type_synonym AggregatedProviderCandles = "string \<rightharpoonup> (string \<rightharpoonup> CandlePrice list)"

record CurrencyPair =
  Base :: string
  Quote :: string

definition CurrencyPair_String :: "CurrencyPair \<Rightarrow> string" where
  "CurrencyPair_String cp = Base cp @ Quote cp"

type_synonym prices = "(string \<times> Dec) list"

record FauxOracleKeeper =
  keeper_prices :: prices

definition GetSupportedPairs :: "FauxOracleKeeper \<Rightarrow> CurrencyPair list" where
  "GetSupportedPairs k = [\<lparr>Base = ''ATOM'', Quote = ''USD''\<rparr>]"

text \<open>
  \<^verbatim>\<open>SetOraclePrices\<close> has a value receiver: the assignment changes the method's own copy
  of the keeper. The model returns that copy next to the \<^verbatim>\<open>nil\<close> error; what the caller
  holds is the caller's to replace.
\<close>

definition SetOraclePrices :: "FauxOracleKeeper \<Rightarrow> prices \<Rightarrow> FauxOracleKeeper \<times> error option" where
  "SetOraclePrices k ps = (k\<lparr>keeper_prices := ps\<rparr>, None)"

section \<open>The provider aggregator\<close>

record ProviderAggregator =
  providerPrices :: AggregatedProviderPrices
  providerCandles :: AggregatedProviderCandles

definition NewProviderAggregator :: ProviderAggregator where
  "NewProviderAggregator = \<lparr>providerPrices = Map.empty, providerCandles = Map.empty\<rparr>"

text \<open>
  The method runs under the aggregator's mutex, so a call is one atomic step on the
  aggregator. The inner maps are created here and nowhere else, hence never shared
  between two providers, and the in-place store into an inner map is an update of the
  nested map.
\<close>

definition SetProviderTickerPricesAndCandles ::
  "ProviderAggregator \<Rightarrow> string \<Rightarrow> (string \<rightharpoonup> TickerPrice) \<Rightarrow> (string \<rightharpoonup> CandlePrice list) \<Rightarrow>
     CurrencyPair \<Rightarrow> ProviderAggregator \<times> bool" where
  "SetProviderTickerPricesAndCandles p providerName tickers candles pair =
     (let p1 = (case providerPrices p providerName of
                  None \<Rightarrow> p\<lparr>providerPrices := (providerPrices p)(providerName \<mapsto> Map.empty)\<rparr>
                | Some _ \<Rightarrow> p);
          p2 = (case providerCandles p1 providerName of
                  None \<Rightarrow> p1\<lparr>providerCandles := (providerCandles p1)(providerName \<mapsto> Map.empty)\<rparr>
                | Some _ \<Rightarrow> p1);
          pricesOk = (tickers (CurrencyPair_String pair) \<noteq> None);
          p3 = (case tickers (CurrencyPair_String pair) of
                  Some tp \<Rightarrow> p2\<lparr>providerPrices := (providerPrices p2)
                              (providerName \<mapsto> (the (providerPrices p2 providerName))(Base pair \<mapsto> tp))\<rparr>
                | None \<Rightarrow> p2);
          candlesOk = (candles (CurrencyPair_String pair) \<noteq> None);
          p4 = (case candles (CurrencyPair_String pair) of
                  Some cp \<Rightarrow> p3\<lparr>providerCandles := (providerCandles p3)
                              (providerName \<mapsto> (the (providerCandles p3 providerName))(Base pair \<mapsto> cp))\<rparr>
                | None \<Rightarrow> p3)
      in (p4, pricesOk \<or> candlesOk))"

text \<open>Reading a nested Go map: \<^verbatim>\<open>m[provider][base]\<close>, absent when either key is.\<close>

definition lookup2 :: "(string \<rightharpoonup> (string \<rightharpoonup> 'v)) \<Rightarrow> string \<Rightarrow> string \<Rightarrow> 'v option" where
  "lookup2 m provider base = (case m provider of None \<Rightarrow> None | Some inner \<Rightarrow> inner base)"

section \<open>Vote extensions\<close>

text \<open>
  The canonical vote extension. \<^verbatim>\<open>Prices\<close> is ranged over by the proposal handler and
  serialized, so it is an association list.
\<close>

record OracleVoteExtension =
  Height :: "64 word"
  Prices :: prices

text \<open>
  \<^verbatim>\<open>json.Marshal\<close> and \<^verbatim>\<open>json.Unmarshal\<close> are Go's standard library; the handlers take
  them as parameters \<open>marshal\<close> and \<open>unmarshal\<close>.
\<close>

type_synonym marshalVoteExt = "OracleVoteExtension \<Rightarrow> error + bytes"

type_synonym unmarshalVoteExt = "bytes \<Rightarrow> error + OracleVoteExtension"

subsection \<open>The host's request and response types\<close>

record RequestExtendVote =
  ExtendVote_Height :: "64 word"

record ResponseExtendVote =
  ExtendVote_VoteExtension :: bytes

record RequestVerifyVoteExtension =
  Verify_Height :: "64 word"
  Verify_VoteExtension :: bytes
  ValidatorAddress :: bytes

datatype VerifyStatus = VerifyStatus_UNKNOWN | VerifyStatus_ACCEPT | VerifyStatus_REJECT

record ResponseVerifyVoteExtension =
  Verify_Status :: VerifyStatus

record Validator =
  Address :: bytes
  Power :: "64 word"

record ExtendedVoteInfo =
  Validator :: Validator
  VoteExtension :: bytes

record ExtendedCommitInfo =
  Round :: "32 word"
  Votes :: "ExtendedVoteInfo list"

record RequestPrepareProposal =
  LocalLastCommit :: ExtendedCommitInfo

record ResponsePrepareProposal =
  Prepare_Txs :: "bytes list"

record RequestProcessProposal =
  Txs :: "bytes list"

datatype ProposalStatus = UNKNOWN | ACCEPT | REJECT

record ResponseProcessProposal =
  Status :: ProposalStatus

subsection \<open>The vote-extension handler\<close>

text \<open>
  The logger, the provider timeout and the providers themselves are the handler's
  environment: what a provider's fetch task ends in is an input of the model
  (\<open>fetch_outcome\<close> below), and so is the clock. The source has no constructor for the
  handler; \<^verbatim>\<open>computedPrices\<close> is taken to be an allocated map, as the store into it
  requires.
\<close>

record VoteExtHandler =
  currentBlock :: "64 word"
  lastPriceSyncTS :: nat
  providerPairs :: "(string \<times> CurrencyPair list) list"
  computedPrices :: "64 word \<rightharpoonup> prices"
  FauxOracleKeeper :: FauxOracleKeeper

text \<open>
  The three-way \<^verbatim>\<open>select\<close> of a provider's task: the fetch goroutine signalled
  \<^verbatim>\<open>doneCh\<close> (with the ticker and candle maps it left behind), an error arrived on
  \<^verbatim>\<open>errCh\<close>, or the timeout fired. Which case wins a race is the scheduler's choice, so
  \<open>Fetched\<close> carries whatever the two maps hold at that moment.
\<close>

datatype fetch_outcome =
    Fetched "string \<rightharpoonup> TickerPrice" "string \<rightharpoonup> CandlePrice list"
  | FetchError
  | FetchTimeout

text \<open>
  \<^verbatim>\<open>vote_exts.go\<close>, lines 164 to 169: record every pair of the provider, stop at the
  first failure.
\<close>

fun recordPairs ::
  "ProviderAggregator \<Rightarrow> string \<Rightarrow> (string \<rightharpoonup> TickerPrice) \<Rightarrow> (string \<rightharpoonup> CandlePrice list) \<Rightarrow>
     CurrencyPair list \<Rightarrow> ProviderAggregator \<times> error option" where
  "recordPairs agg providerName tickers candles [] = (agg, None)"
| "recordPairs agg providerName tickers candles (pair # rest) =
     (case SetProviderTickerPricesAndCandles agg providerName tickers candles pair of
        (agg', success) \<Rightarrow>
          if \<not> success then (agg', Some NoExchangeRates)
          else recordPairs agg' providerName tickers candles rest)"

text \<open>One provider's task (the function handed to \<^verbatim>\<open>g.Go\<close>).\<close>

definition providerTask ::
  "ProviderAggregator \<Rightarrow> string \<Rightarrow> CurrencyPair list \<Rightarrow> fetch_outcome \<Rightarrow>
     ProviderAggregator \<times> error option" where
  "providerTask agg providerName currencyPairs out =
     (case out of
        Fetched tickers candles \<Rightarrow> recordPairs agg providerName tickers candles currencyPairs
      | FetchError \<Rightarrow> (agg, Some ProviderError)
      | FetchTimeout \<Rightarrow> (agg, Some (ProviderTimedOut providerName)))"

text \<open>
  The loop over \<^verbatim>\<open>h.providerPairs\<close>: it collects the required bases and runs the tasks.
  The tasks run concurrently, each under the aggregator's lock and each on its own
  provider name and pairs (every name of \<^verbatim>\<open>providerPairs\<close> is taken to have a
  provider); the model runs them one after the other. \<^verbatim>\<open>g.Wait\<close> returns the first
  error, here the first in list order.
\<close>

fun addRequired :: "CurrencyPair list \<Rightarrow> string list \<Rightarrow> string list" where
  "addRequired [] requiredRates = requiredRates"
| "addRequired (pair # rest) requiredRates =
     addRequired rest (if Base pair \<in> set requiredRates then requiredRates
                       else requiredRates @ [Base pair])"

fun runProviders ::
  "(string \<times> CurrencyPair list) list \<Rightarrow> (string \<Rightarrow> fetch_outcome) \<Rightarrow>
     string list \<times> ProviderAggregator \<times> error option \<Rightarrow>
     string list \<times> ProviderAggregator \<times> error option" where
  "runProviders [] fetch st = st"
| "runProviders ((providerName, currencyPairs) # rest) fetch (requiredRates, agg, err) =
     (case providerTask agg providerName currencyPairs (fetch providerName) of
        (agg', err') \<Rightarrow>
          runProviders rest fetch
            (addRequired currencyPairs requiredRates, agg',
             (case err of None \<Rightarrow> err' | Some e \<Rightarrow> Some e)))"

text \<open>The price formula is a stub: its named results are returned as they are, both nil.\<close>

definition computeOraclePrices :: "VoteExtHandler \<Rightarrow> ProviderAggregator \<Rightarrow> error + prices" where
  "computeOraclePrices h providerAgg = Inr []"

text \<open>The check is a stub as well: it returns nil.\<close>

definition verifyPrices :: "VoteExtHandler \<Rightarrow> prices \<Rightarrow> error option" where
  "verifyPrices h ps = None"

text \<open>
  \<^verbatim>\<open>ExtendVoteHandler\<close>. The error of \<^verbatim>\<open>g.Wait\<close> is logged and dropped. The loop over
  \<^verbatim>\<open>requiredRates\<close> returns at the first base that has no computed price.
\<close>

definition ExtendVoteHandler ::
  "marshalVoteExt \<Rightarrow> (string \<Rightarrow> fetch_outcome) \<Rightarrow> nat \<Rightarrow> VoteExtHandler \<Rightarrow> RequestExtendVote \<Rightarrow>
     (error + ResponseExtendVote) \<times> VoteExtHandler" where
  "ExtendVoteHandler marshal fetch now h req =
     (let h1 = h\<lparr>currentBlock := ExtendVote_Height req, lastPriceSyncTS := now\<rparr>
      in case runProviders (providerPairs h1) fetch ([], NewProviderAggregator, None) of
        (requiredRates, providerAgg, waitErr) \<Rightarrow>
          (case computeOraclePrices h1 providerAgg of
             Inl err \<Rightarrow> (Inl err, h1)
           | Inr computed \<Rightarrow>
               (case find (\<lambda>base. map_of computed base = None) requiredRates of
                  Some base \<Rightarrow> (Inl (PriceNotFound base), h1)
                | None \<Rightarrow>
                    (case marshal \<lparr>Height = ExtendVote_Height req, Prices = computed\<rparr> of
                       Inl err \<Rightarrow> (Inl (FailedToMarshal err), h1)
                     | Inr bz \<Rightarrow>
                         (Inr \<lparr>ExtendVote_VoteExtension = bz\<rparr>,
                          h1\<lparr>computedPrices := (computedPrices h1)(ExtendVote_Height req \<mapsto> computed)\<rparr>)))))"

definition VerifyVoteExtensionHandler ::
  "unmarshalVoteExt \<Rightarrow> VoteExtHandler \<Rightarrow> RequestVerifyVoteExtension \<Rightarrow>
     error + ResponseVerifyVoteExtension" where
  "VerifyVoteExtensionHandler unmarshal h req =
     (case unmarshal (Verify_VoteExtension req) of
        Inl err \<Rightarrow> Inl (FailedToUnmarshal err)
      | Inr voteExt \<Rightarrow>
          if Height voteExt \<noteq> Verify_Height req
          then Inl (HeightMismatch (Verify_Height req) (Height voteExt))
          else (case verifyPrices h (Prices voteExt) of
                  Some err \<Rightarrow> Inl (FailedToVerifyPrices (ValidatorAddress req) err)
                | None \<Rightarrow> Inr \<lparr>Verify_Status = VerifyStatus_ACCEPT\<rparr>))"

section \<open>The proposal handler\<close>

record StakeWeightedPrices =
  StakeWeightedPrices :: prices
  ExtendedCommitInfo :: ExtendedCommitInfo

type_synonym marshalTx = "StakeWeightedPrices \<Rightarrow> error + bytes"

type_synonym unmarshalTx = "bytes \<Rightarrow> error + StakeWeightedPrices"

record ProposalHandler =
  fauxOracleKeeper :: FauxOracleKeeper

text \<open>
  The loops of \<^verbatim>\<open>computeStakeWeightedOraclePrices\<close>, by their lines in the proposal
  handler's file. Lines 109 to 111: every required base starts at zero.
\<close>

fun initPrices :: "CurrencyPair list \<Rightarrow> prices \<Rightarrow> prices" where
  "initPrices [] stakeWeightedPrices = stakeWeightedPrices"
| "initPrices (pair # rest) stakeWeightedPrices =
     initPrices rest (AList.update (Base pair) ZeroDec stakeWeightedPrices)"

text \<open>Lines 128 to 136: one vote's prices, weighted by its power, go into the totals.\<close>

fun addPrices :: "64 word \<Rightarrow> prices \<Rightarrow> prices \<Rightarrow> prices" where
  "addPrices weight [] stakeWeightedPrices = stakeWeightedPrices"
| "addPrices weight ((base, price) # rest) stakeWeightedPrices =
     addPrices weight rest
       (case map_of stakeWeightedPrices base of
          Some cur \<Rightarrow> AList.update base (Add cur (MulInt64 price weight)) stakeWeightedPrices
        | None \<Rightarrow> stakeWeightedPrices)"

text \<open>Lines 114 to 137: the loop over the votes, left at the first undecodable one.\<close>

fun tallyVotes ::
  "unmarshalVoteExt \<Rightarrow> ExtendedVoteInfo list \<Rightarrow> prices \<Rightarrow> 64 word \<Rightarrow> error + prices \<times> 64 word" where
  "tallyVotes unmarshal [] stakeWeightedPrices totalStake = Inr (stakeWeightedPrices, totalStake)"
| "tallyVotes unmarshal (v # vs) stakeWeightedPrices totalStake =
     (case unmarshal (VoteExtension v) of
        Inl err \<Rightarrow> Inl err
      | Inr voteExt \<Rightarrow>
          tallyVotes unmarshal vs
            (addPrices (Power (Validator v)) (Prices voteExt) stakeWeightedPrices)
            (totalStake + Power (Validator v)))"

text \<open>
  Lines 140 to 142: each total is divided by the total stake. The first argument is what
  is left of the range over the map, the last the map being updated.
\<close>

fun finalizePrices :: "prices \<Rightarrow> 64 word \<Rightarrow> prices \<Rightarrow> prices outcome" where
  "finalizePrices [] totalStake stakeWeightedPrices = Returns stakeWeightedPrices"
| "finalizePrices ((base, price) # rest) totalStake stakeWeightedPrices =
     (case QuoInt64 price totalStake of
        Panics p \<Rightarrow> Panics p
      | Returns q \<Rightarrow> finalizePrices rest totalStake (AList.update base q stakeWeightedPrices))"

definition computeStakeWeightedOraclePrices ::
  "unmarshalVoteExt \<Rightarrow> ProposalHandler \<Rightarrow> ExtendedCommitInfo \<Rightarrow> (error + prices) outcome" where
  "computeStakeWeightedOraclePrices unmarshal h ci =
     (let requiredPairs = GetSupportedPairs (fauxOracleKeeper h);
          stakeWeightedPrices = initPrices requiredPairs []
      in case tallyVotes unmarshal (Votes ci) stakeWeightedPrices 0 of
           Inl err \<Rightarrow> Returns (Inl err)
         | Inr (summed, totalStake) \<Rightarrow>
             (case finalizePrices summed totalStake summed of
                Panics p \<Rightarrow> Panics p
              | Returns averaged \<Rightarrow> Returns (Inr averaged)))"

text \<open>The comparison is a stub: it returns nil for any two maps.\<close>

definition compareOraclePrices :: "prices \<Rightarrow> prices \<Rightarrow> error option" where
  "compareOraclePrices p1 p2 = None"

definition PrepareProposal ::
  "unmarshalVoteExt \<Rightarrow> marshalTx \<Rightarrow> ProposalHandler \<Rightarrow> RequestPrepareProposal \<Rightarrow>
     ResponsePrepareProposal outcome" where
  "PrepareProposal unmarshal marshal h req =
     (case computeStakeWeightedOraclePrices unmarshal h (LocalLastCommit req) of
        Panics p \<Rightarrow> Panics p
      | Returns (Inl err) \<Rightarrow> Returns \<lparr>Prepare_Txs = []\<rparr>
      | Returns (Inr stakeWeightedPrices) \<Rightarrow>
          (case marshal \<lparr>StakeWeightedPrices = stakeWeightedPrices,
                         ExtendedCommitInfo = LocalLastCommit req\<rparr> of
             Inl err \<Rightarrow> Returns \<lparr>Prepare_Txs = []\<rparr>
           | Inr bz \<Rightarrow> Returns \<lparr>Prepare_Txs = [] @ [bz]\<rparr>))"

text \<open>
  An earlier revision of the handler has the same aggregation written out inside
  \<^verbatim>\<open>PrepareProposal\<close>, and injects the votes rather than the whole commit-info.
\<close>

definition PrepareProposal_inline ::
  "unmarshalVoteExt \<Rightarrow> (prices \<times> ExtendedVoteInfo list \<Rightarrow> error + bytes) \<Rightarrow> ProposalHandler \<Rightarrow>
     RequestPrepareProposal \<Rightarrow> ResponsePrepareProposal outcome" where
  "PrepareProposal_inline unmarshal marshal h req =
     (let requiredPairs = GetSupportedPairs (fauxOracleKeeper h);
          stakeWeightedPrices = initPrices requiredPairs []
      in case tallyVotes unmarshal (Votes (LocalLastCommit req)) stakeWeightedPrices 0 of
           Inl err \<Rightarrow> Returns \<lparr>Prepare_Txs = []\<rparr>
         | Inr (summed, totalStake) \<Rightarrow>
             (case finalizePrices summed totalStake summed of
                Panics p \<Rightarrow> Panics p
              | Returns averaged \<Rightarrow>
                  (case marshal (averaged, Votes (LocalLastCommit req)) of
                     Inl err \<Rightarrow> Returns \<lparr>Prepare_Txs = []\<rparr>
                   | Inr bz \<Rightarrow> Returns \<lparr>Prepare_Txs = [] @ [bz]\<rparr>)))"

text \<open>
  \<^verbatim>\<open>ProcessProposal\<close> returns the response and the handler after the call. The keeper's
  \<^verbatim>\<open>SetOraclePrices\<close> works on its own copy of \<^verbatim>\<open>h.fauxOracleKeeper\<close> and its results
  are dropped, so the handler comes back as it was. The handler's \<^verbatim>\<open>app\<close> is taken to
  be set.
\<close>

definition ProcessProposal ::
  "unmarshalTx \<Rightarrow> unmarshalVoteExt \<Rightarrow> ProposalHandler \<Rightarrow> RequestProcessProposal \<Rightarrow>
     (ResponseProcessProposal \<times> ProposalHandler) outcome" where
  "ProcessProposal unmarshalT unmarshal h req =
     (case Txs req of
        [] \<Rightarrow> Returns (\<lparr>Status = ACCEPT\<rparr>, h)
      | tx0 # _ \<Rightarrow>
          (case unmarshalT tx0 of
             Inl err \<Rightarrow> Returns (\<lparr>Status = REJECT\<rparr>, h)
           | Inr injectedVoteExtTx \<Rightarrow>
               (case computeStakeWeightedOraclePrices unmarshal h
                       (ExtendedCommitInfo injectedVoteExtTx) of
                  Panics p \<Rightarrow> Panics p
                | Returns (Inl err) \<Rightarrow> Returns (\<lparr>Status = REJECT\<rparr>, h)
                | Returns (Inr stakeWeightedPrices) \<Rightarrow>
                    (case compareOraclePrices (StakeWeightedPrices injectedVoteExtTx)
                            stakeWeightedPrices of
                       Some err \<Rightarrow> Returns (\<lparr>Status = REJECT\<rparr>, h)
                     | None \<Rightarrow>
                         (case SetOraclePrices (fauxOracleKeeper h) stakeWeightedPrices of
                            (receiverCopy, err) \<Rightarrow> Returns (\<lparr>Status = ACCEPT\<rparr>, h))))))"

section \<open>Quantities the statements speak of\<close>

text \<open>
  A vote decodes when \<open>unmarshal\<close> succeeds on its extension. \<open>voteWeight\<close> is what one
  vote adds to the running total of a base: its price for the base times its power.
  \<open>totalPower\<close> is the sum of the powers in \<^verbatim>\<open>int64\<close> arithmetic.
\<close>

definition weighted :: "64 word \<Rightarrow> prices \<Rightarrow> string \<Rightarrow> Dec" where
  "weighted w ps b = (\<Sum>(k, p) \<leftarrow> ps. if k = b then MulInt64 p w else 0)"

definition decodes :: "unmarshalVoteExt \<Rightarrow> ExtendedVoteInfo \<Rightarrow> bool" where
  "decodes unmarshal v = (\<not> isl (unmarshal (VoteExtension v)))"

definition voteWeight :: "unmarshalVoteExt \<Rightarrow> ExtendedVoteInfo \<Rightarrow> string \<Rightarrow> Dec" where
  "voteWeight unmarshal v b =
     weighted (Power (Validator v)) (Prices (projr (unmarshal (VoteExtension v)))) b"

definition totalPower :: "ExtendedVoteInfo list \<Rightarrow> 64 word" where
  "totalPower vs = (\<Sum>v \<leftarrow> vs. Power (Validator v))"

section \<open>The attestation codec\<close>

text \<open>
  Modelled from the spec: the wire format of the vote extension. The code calls
  \<^verbatim>\<open>json.Marshal\<close> and \<^verbatim>\<open>json.Unmarshal\<close> of Go's standard library on
  \<^verbatim>\<open>OracleVoteExtension\<close>, with the decimal's own string form from the Cosmos SDK;
  neither is part of the repository. The specification gives the format as a JSON object
  \<^verbatim>\<open>{height: integer, prices: {symbol: decimal-as-string, ...}}\<close>. The model writes
  that object with the struct's field names, \<^verbatim>\<open>{"Height":100,"Prices":{"ATOM":"10.200000000000000000"}}\<close>:
  the height as a decimal integer, each price as a quoted decimal with 18 fractional
  digits, each symbol quoted, with the quote and the backslash escaped by a backslash. The
  decoder reads this form, strictly, and fails with \<open>SyntaxError\<close> on anything else. An
  object that repeats a key decodes to the last value of that key.
\<close>

definition dquote :: char where
  "dquote = CHR 0x22"

definition backslash :: char where
  "backslash = CHR 0x5C"

text \<open>Decimal digits, and natural numbers written most significant digit first.\<close>

definition is_digit :: "char \<Rightarrow> bool" where
  "is_digit c = (48 \<le> (of_char c :: nat) \<and> (of_char c :: nat) \<le> 57)"

definition digit_val :: "char \<Rightarrow> nat" where
  "digit_val c = of_char c - 48"

definition digit_char :: "nat \<Rightarrow> char" where
  "digit_char d = char_of (48 + d)"

fun show_nat :: "nat \<Rightarrow> string" where
  "show_nat n = (if n < 10 then [digit_char n] else show_nat (n div 10) @ [digit_char (n mod 10)])"

declare show_nat.simps [simp del]

definition digits_val :: "string \<Rightarrow> nat" where
  "digits_val ds = foldl (\<lambda>a c. 10 * a + digit_val c) 0 ds"

definition parse_nat :: "string \<Rightarrow> (nat \<times> string) option" where
  "parse_nat s =
     (let ds = takeWhile is_digit s
      in if ds = [] then None else Some (digits_val ds, dropWhile is_digit s))"

text \<open>The height: an optional minus sign and the digits.\<close>

definition show_int :: "int \<Rightarrow> string" where
  "show_int i = (if i < 0 then CHR ''-'' # show_nat (nat (- i)) else show_nat (nat i))"

definition parse_sign :: "string \<Rightarrow> bool \<times> string" where
  "parse_sign s = (case s of [] \<Rightarrow> (False, s) | c # cs \<Rightarrow> if c = CHR ''-'' then (True, cs) else (False, s))"

definition parse_int :: "string \<Rightarrow> (int \<times> string) option" where
  "parse_int s =
     (case parse_sign s of
        (neg, s1) \<Rightarrow>
          (case parse_nat s1 of
             None \<Rightarrow> None
           | Some (n, r) \<Rightarrow> Some (if neg then - int n else int n, r)))"

text \<open>
  Modelled from the spec: the decimal as a string. The scaled integer is written as its
  integer part, a point and exactly \<open>Precision\<close> fractional digits, with a leading minus
  sign when negative; \<open>parse_dec\<close> reads that form back.
\<close>

definition Precision :: nat where
  "Precision = 18"

definition show_frac :: "nat \<Rightarrow> string" where
  "show_frac f = replicate (Precision - length (show_nat f)) (CHR ''0'') @ show_nat f"

definition Dec_String :: "Dec \<Rightarrow> string" where
  "Dec_String d =
     (if d < 0 then ''-'' else '''') @ show_nat (nat \<bar>d\<bar> div 10 ^ Precision) @ ''.'' @
     show_frac (nat \<bar>d\<bar> mod 10 ^ Precision)"

definition parse_dec :: "string \<Rightarrow> (Dec \<times> string) option" where
  "parse_dec s =
     (case parse_sign s of
        (neg, s1) \<Rightarrow>
          (case parse_nat s1 of
             None \<Rightarrow> None
           | Some (ip, r1) \<Rightarrow>
               (case r1 of
                  [] \<Rightarrow> None
                | c # r2 \<Rightarrow>
                    if c = CHR ''.'' \<and> length (take Precision r2) = Precision \<and>
                       list_all is_digit (take Precision r2)
                    then Some ((if neg then - 1 else 1) *
                                 (int ip * 10 ^ Precision + int (digits_val (take Precision r2))),
                               drop Precision r2)
                    else None)))"

text \<open>A number token ends where the digits end.\<close>

definition ends_number :: "string \<Rightarrow> bool" where
  "ends_number rest = (case rest of [] \<Rightarrow> True | c # _ \<Rightarrow> \<not> is_digit c)"

text \<open>
  A symbol is written between quotes, with a backslash before each quote and each
  backslash in it; \<open>read_string\<close> reads up to the closing quote.
\<close>

fun escape_string :: "string \<Rightarrow> string" where
  "escape_string [] = []"
| "escape_string (c # cs) =
     (if c = dquote \<or> c = backslash then [backslash, c] else [c]) @ escape_string cs"

definition quote_string :: "string \<Rightarrow> string" where
  "quote_string s = dquote # escape_string s @ [dquote]"

fun read_string :: "string \<Rightarrow> (string \<times> string) option" where
  "read_string [] = None"
| "read_string [c] = (if c = dquote then Some ([], []) else None)"
| "read_string (c # d # ds) =
     (if c = dquote then Some ([], d # ds)
      else if c = backslash then
        (if d = dquote \<or> d = backslash
         then (case read_string ds of None \<Rightarrow> None | Some (k, r) \<Rightarrow> Some (d # k, r))
         else None)
      else (case read_string (d # ds) of None \<Rightarrow> None | Some (k, r) \<Rightarrow> Some (c # k, r)))"

text \<open>One member of the price object: the quoted symbol, a colon, the quoted decimal.\<close>

definition parse_member :: "string \<Rightarrow> ((string \<times> Dec) \<times> string) option" where
  "parse_member s =
     (case s of
        [] \<Rightarrow> None
      | c # cs \<Rightarrow>
          if c \<noteq> dquote then None
          else (case read_string cs of
                  None \<Rightarrow> None
                | Some (k, r) \<Rightarrow>
                    (case r of
                       c1 # c2 # r2 \<Rightarrow>
                         if c1 = CHR '':'' \<and> c2 = dquote
                         then (case parse_dec r2 of
                                 None \<Rightarrow> None
                               | Some (v, r3) \<Rightarrow>
                                   (case r3 of
                                      [] \<Rightarrow> None
                                    | c3 # r4 \<Rightarrow> if c3 = dquote then Some ((k, v), r4) else None))
                         else None
                     | _ \<Rightarrow> None)))"

text \<open>Each parser leaves a shorter rest, which is why the loop over the members ends.\<close>

lemma read_string_shorter: "read_string s = Some (k, r) \<Longrightarrow> length r < length s"
proof (induction s arbitrary: k r rule: read_string.induct)
  case 1
  then show ?case by simp
next
  case (2 c)
  then show ?case by (simp split: if_splits)
next
  case (3 c d ds)
  show ?case
  proof (cases "c = dquote")
    case True
    with "3.prems" show ?thesis by auto
  next
    case nq: False
    show ?thesis
    proof (cases "c = backslash")
      case True
      with nq "3.prems" obtain k' where "read_string ds = Some (k', r)"
        by (auto split: if_splits option.splits)
      with "3.IH"(1) [OF nq True] nq True "3.prems" show ?thesis
        by (fastforce split: if_splits)
    next
      case False
      with nq "3.prems" obtain k' where "read_string (d # ds) = Some (k', r)"
        by (auto split: option.splits)
      with "3.IH"(2) [OF nq False] show ?thesis by fastforce
    qed
  qed
qed

lemma parse_nat_shorter: "parse_nat s = Some (n, r) \<Longrightarrow> length r \<le> length s"
  by (auto simp: parse_nat_def Let_def length_dropWhile_le split: if_splits)

lemma parse_sign_shorter: "parse_sign s = (neg, s1) \<Longrightarrow> length s1 \<le> length s"
  by (auto simp: parse_sign_def split: list.splits if_splits)

lemma parse_dec_shorter:
  assumes "parse_dec s = Some (v, r)"
  shows "length r \<le> length s"
proof -
  obtain neg s1 where sg: "parse_sign s = (neg, s1)" by (cases "parse_sign s")
  from assms sg obtain ip r1 where pn: "parse_nat s1 = Some (ip, r1)"
    by (auto simp: parse_dec_def split: option.splits)
  from assms sg pn obtain c r2 where r1: "r1 = c # r2" and r: "r = drop Precision r2"
    by (auto simp: parse_dec_def split: list.splits if_splits)
  have "length r \<le> length r2" by (simp add: r)
  also have "\<dots> \<le> length r1" by (simp add: r1)
  also have "\<dots> \<le> length s1" by (rule parse_nat_shorter [OF pn])
  also have "\<dots> \<le> length s" by (rule parse_sign_shorter [OF sg])
  finally show ?thesis .
qed

lemma parse_member_shorter:
  assumes "parse_member s = Some (m, r)"
  shows "length r < length s"
proof -
  from assms obtain cs where s: "s = dquote # cs"
    by (auto simp: parse_member_def split: list.splits if_splits)
  from assms s obtain k r1 where rs: "read_string cs = Some (k, r1)"
    by (auto simp: parse_member_def split: option.splits)
  from assms s rs obtain r2 where r1: "r1 = CHR '':'' # dquote # r2"
    by (auto simp: parse_member_def split: list.splits if_splits)
  from assms s rs r1 obtain v r3 where pd: "parse_dec r2 = Some (v, r3)"
    by (auto simp: parse_member_def split: option.splits)
  from assms s rs r1 pd have r3: "r3 = dquote # r"
    by (auto simp: parse_member_def split: list.splits if_splits)
  have "length r < length r3" by (simp add: r3)
  also have "\<dots> \<le> length r2" by (rule parse_dec_shorter [OF pd])
  also have "\<dots> \<le> length r1" by (simp add: r1)
  also have "\<dots> < length cs" by (rule read_string_shorter [OF rs])
  also have "\<dots> \<le> length s" by (simp add: s)
  finally show ?thesis .
qed

text \<open>The members of a non-empty price object, separated by commas, up to the closing brace.\<close>

function parse_members :: "string \<Rightarrow> (prices \<times> string) option" where
  "parse_members s =
     (case parse_member s of
        None \<Rightarrow> None
      | Some (m, r) \<Rightarrow>
          (case r of
             [] \<Rightarrow> None
           | c # r' \<Rightarrow>
               if c = CHR ''}'' then Some ([m], r')
               else if c = CHR '','' then
                 (case parse_members r' of None \<Rightarrow> None | Some (ms, r'') \<Rightarrow> Some (m # ms, r''))
               else None))"
  by pat_completeness auto
termination
proof (relation "measure length")
  show "wf (measure length)" by simp
next
  fix s x2 x y c r'
  assume "parse_member s = Some x2" "(x, y) = x2" "y = c # r'"
  then have "parse_member s = Some (x, c # r')" by simp
  from parse_member_shorter [OF this] show "(r', s) \<in> measure length" by simp
qed

declare parse_members.simps [simp del]

text \<open>Writing the price object; the members come in the order of the list.\<close>

definition show_member :: "string \<times> Dec \<Rightarrow> string" where
  "show_member m = quote_string (fst m) @ '':'' @ [dquote] @ Dec_String (snd m) @ [dquote]"

fun show_members :: "prices \<Rightarrow> string" where
  "show_members [] = []"
| "show_members [m] = show_member m"
| "show_members (m # m' # ms) = show_member m @ '','' @ show_members (m' # ms)"

definition show_prices :: "prices \<Rightarrow> string" where
  "show_prices ps = ''{'' @ show_members ps @ ''}''"

definition parse_prices :: "string \<Rightarrow> (prices \<times> string) option" where
  "parse_prices s =
     (case s of
        c # d # ds \<Rightarrow>
          if c \<noteq> CHR ''{'' then None
          else if d = CHR ''}'' then Some ([], ds)
          else parse_members (d # ds)
      | _ \<Rightarrow> None)"

definition strip_prefix :: "string \<Rightarrow> string \<Rightarrow> string option" where
  "strip_prefix p s = (if take (length p) s = p then Some (drop (length p) s) else None)"

text \<open>Decoded members go into the map one by one, a later value replacing an earlier one.\<close>

definition insert_members :: "prices \<Rightarrow> prices \<Rightarrow> prices" where
  "insert_members ms m = foldl (\<lambda>acc kv. AList.update (fst kv) (snd kv) acc) m ms"

text \<open>
  Modelled from the spec: \<^verbatim>\<open>json.Marshal\<close> of an \<^verbatim>\<open>OracleVoteExtension\<close>, absent from the
  repository. It writes the object with the fields \<^verbatim>\<open>Height\<close> and \<^verbatim>\<open>Prices\<close> and never
  fails.
\<close>

definition encodeVoteExt :: "OracleVoteExtension \<Rightarrow> bytes" where
  "encodeVoteExt ve =
     ''{'' @ quote_string ''Height'' @ '':'' @ show_int (sint (Height ve)) @
     '','' @ quote_string ''Prices'' @ '':'' @ show_prices (Prices ve) @ ''}''"

definition marshalJSON :: "OracleVoteExtension \<Rightarrow> error + bytes" where
  "marshalJSON ve = Inr (encodeVoteExt ve)"

text \<open>
  Modelled from the spec: \<^verbatim>\<open>json.Unmarshal\<close> into an \<^verbatim>\<open>OracleVoteExtension\<close>, absent from
  the repository. It fails on bytes that are not of the form above and on a height outside
  \<^verbatim>\<open>int64\<close>.
\<close>

definition unmarshalJSON :: "bytes \<Rightarrow> error + OracleVoteExtension" where
  "unmarshalJSON bz =
     (case strip_prefix (''{'' @ quote_string ''Height'' @ '':'') bz of
        None \<Rightarrow> Inl SyntaxError
      | Some s1 \<Rightarrow>
          (case parse_int s1 of
             None \<Rightarrow> Inl SyntaxError
           | Some (i, s2) \<Rightarrow>
               if \<not> (- (2 ^ 63) \<le> i \<and> i < 2 ^ 63) then Inl SyntaxError
               else (case strip_prefix ('','' @ quote_string ''Prices'' @ '':'') s2 of
                       None \<Rightarrow> Inl SyntaxError
                     | Some s3 \<Rightarrow>
                         (case parse_prices s3 of
                            None \<Rightarrow> Inl SyntaxError
                          | Some (ms, s4) \<Rightarrow>
                              if s4 = ''}''
                              then Inr \<lparr>Height = word_of_int i, Prices = insert_members ms []\<rparr>
                              else Inl SyntaxError))))"

section \<open>Scenarios\<close>

text \<open>
  Concrete inputs for the end-to-end scenarios of the specification: three validators of
  power 10 attesting 10.00, 10.20 and 9.80 for ATOM at height 100; a commit-info with an
  undecodable extension; a proposal whose claimed price is 11.00; a handler with one
  provider for the pair ATOM/USD and one with no provider; a provider response that has
  a ticker price and a candle for the pair.
\<close>

definition atom_ext :: "Dec \<Rightarrow> bytes" where
  "atom_ext p = encodeVoteExt \<lparr>Height = 100, Prices = [(''ATOM'', p)]\<rparr>"

definition vote :: "bytes \<Rightarrow> 64 word \<Rightarrow> bytes \<Rightarrow> ExtendedVoteInfo" where
  "vote addr weight ext = \<lparr>Validator = \<lparr>Address = addr, Power = weight\<rparr>, VoteExtension = ext\<rparr>"

definition three_votes :: "ExtendedVoteInfo list" where
  "three_votes =
     [vote ''val1'' 10 (atom_ext 10000000000000000000),
      vote ''val2'' 10 (atom_ext 10200000000000000000),
      vote ''val3'' 10 (atom_ext 9800000000000000000)]"

definition a_proposal_handler :: ProposalHandler where
  "a_proposal_handler = \<lparr>fauxOracleKeeper = \<lparr>keeper_prices = []\<rparr>\<rparr>"

definition inflated_tx :: "bytes \<Rightarrow> error + StakeWeightedPrices" where
  "inflated_tx bz =
     (if bz = ''tx''
      then Inr \<lparr>StakeWeightedPrices = [(''ATOM'', 11000000000000000000)],
                ExtendedCommitInfo = \<lparr>Round = 0, Votes = three_votes\<rparr>\<rparr>
      else Inl SyntaxError)"

definition garbled_votes :: "ExtendedVoteInfo list" where
  "garbled_votes = [vote ''val1'' 10 (atom_ext 10000000000000000000), vote ''val2'' 10 ''not json'']"

definition a_vote_handler :: VoteExtHandler where
  "a_vote_handler =
     \<lparr>currentBlock = 99, lastPriceSyncTS = 0,
      providerPairs = [(''Binance'', [\<lparr>Base = ''ATOM'', Quote = ''USD''\<rparr>])],
      computedPrices = Map.empty,
      FauxOracleKeeper = \<lparr>keeper_prices = []\<rparr>\<rparr>"

definition full_response :: "string \<Rightarrow> fetch_outcome" where
  "full_response providerName =
     Fetched [''ATOMUSD'' \<mapsto> \<lparr>Price = 10000000000000000000, Volume = 24000000000000000000000\<rparr>]
             [''ATOMUSD'' \<mapsto> [\<lparr>CandlePrice_Price = 10000000000000000000,
                                 CandlePrice_Volume = 24000000000000000000000,
                                 TimeStamp = 1700000000\<rparr>]]"

definition idle_vote_handler :: VoteExtHandler where
  "idle_vote_handler =
     \<lparr>currentBlock = 99, lastPriceSyncTS = 0, providerPairs = [],
      computedPrices = Map.empty, FauxOracleKeeper = \<lparr>keeper_prices = []\<rparr>\<rparr>"

section \<open>Facts about the aggregator\<close>

lemma Set_providerPrices:
  "providerPrices (fst (SetProviderTickerPricesAndCandles p n ts cs pair)) =
     (providerPrices p)(n \<mapsto>
        (case ts (CurrencyPair_String pair) of
           None \<Rightarrow> (case providerPrices p n of None \<Rightarrow> Map.empty | Some inner \<Rightarrow> inner)
         | Some tp \<Rightarrow> (case providerPrices p n of None \<Rightarrow> Map.empty | Some inner \<Rightarrow> inner)
                        (Base pair \<mapsto> tp)))"
  by (auto simp: SetProviderTickerPricesAndCandles_def Let_def fun_upd_idem
           split: option.splits)

lemma Set_providerCandles:
  "providerCandles (fst (SetProviderTickerPricesAndCandles p n ts cs pair)) =
     (providerCandles p)(n \<mapsto>
        (case cs (CurrencyPair_String pair) of
           None \<Rightarrow> (case providerCandles p n of None \<Rightarrow> Map.empty | Some inner \<Rightarrow> inner)
         | Some cp \<Rightarrow> (case providerCandles p n of None \<Rightarrow> Map.empty | Some inner \<Rightarrow> inner)
                        (Base pair \<mapsto> cp)))"
  by (auto simp: SetProviderTickerPricesAndCandles_def Let_def fun_upd_idem
           split: option.splits)

lemma Set_result:
  "snd (SetProviderTickerPricesAndCandles p n ts cs pair) =
     (ts (CurrencyPair_String pair) \<noteq> None \<or> cs (CurrencyPair_String pair) \<noteq> None)"
  by (simp add: SetProviderTickerPricesAndCandles_def Let_def)

section \<open>Claims about the aggregator\<close>

text \<open>
  Claim C8. A call of \<^verbatim>\<open>SetProviderTickerPricesAndCandles\<close> for provider \<open>P\<close> and a pair
  stores the ticker price under \<open>P\<close>, \<open>pair.Base\<close> exactly when the pair's string
  (\<open>Base @ Quote\<close>) is a key of the price map: the entry is that price when the key is
  there and is what it was before when it is not. The same holds for the candles. No
  other entry changes, and the call returns true exactly when one of the two keys was
  there.
\<close>

theorem recordProviderResult_stores:
  "case SetProviderTickerPricesAndCandles p P ts cs pair of
     (p', ok) \<Rightarrow>
       lookup2 (providerPrices p') P (Base pair) =
         (case ts (CurrencyPair_String pair) of
            Some tp \<Rightarrow> Some tp
          | None \<Rightarrow> lookup2 (providerPrices p) P (Base pair)) \<and>
       lookup2 (providerCandles p') P (Base pair) =
         (case cs (CurrencyPair_String pair) of
            Some cp \<Rightarrow> Some cp
          | None \<Rightarrow> lookup2 (providerCandles p) P (Base pair)) \<and>
       (\<forall>n b. (n, b) \<noteq> (P, Base pair) \<longrightarrow>
          lookup2 (providerPrices p') n b = lookup2 (providerPrices p) n b \<and>
          lookup2 (providerCandles p') n b = lookup2 (providerCandles p) n b) \<and>
       (ok \<longleftrightarrow> CurrencyPair_String pair \<in> dom ts \<or> CurrencyPair_String pair \<in> dom cs)"
proof -
  obtain p' ok where r: "SetProviderTickerPricesAndCandles p P ts cs pair = (p', ok)"
    by (cases "SetProviderTickerPricesAndCandles p P ts cs pair")
  have pp: "providerPrices p' =
     (providerPrices p)(P \<mapsto>
        (case ts (CurrencyPair_String pair) of
           None \<Rightarrow> (case providerPrices p P of None \<Rightarrow> Map.empty | Some inner \<Rightarrow> inner)
         | Some tp \<Rightarrow> (case providerPrices p P of None \<Rightarrow> Map.empty | Some inner \<Rightarrow> inner)
                        (Base pair \<mapsto> tp)))"
    using Set_providerPrices [of p P ts cs pair] r by simp
  have pc: "providerCandles p' =
     (providerCandles p)(P \<mapsto>
        (case cs (CurrencyPair_String pair) of
           None \<Rightarrow> (case providerCandles p P of None \<Rightarrow> Map.empty | Some inner \<Rightarrow> inner)
         | Some cp \<Rightarrow> (case providerCandles p P of None \<Rightarrow> Map.empty | Some inner \<Rightarrow> inner)
                        (Base pair \<mapsto> cp)))"
    using Set_providerCandles [of p P ts cs pair] r by simp
  have ok: "ok \<longleftrightarrow> CurrencyPair_String pair \<in> dom ts \<or> CurrencyPair_String pair \<in> dom cs"
    using Set_result [of p P ts cs pair] r by (auto simp: dom_def)
  have a: "lookup2 (providerPrices p') P (Base pair) =
         (case ts (CurrencyPair_String pair) of
            Some tp \<Rightarrow> Some tp
          | None \<Rightarrow> lookup2 (providerPrices p) P (Base pair))"
    unfolding pp by (simp add: lookup2_def split: option.splits)
  have b: "lookup2 (providerCandles p') P (Base pair) =
         (case cs (CurrencyPair_String pair) of
            Some cp \<Rightarrow> Some cp
          | None \<Rightarrow> lookup2 (providerCandles p) P (Base pair))"
    unfolding pc by (simp add: lookup2_def split: option.splits)
  have c: "\<forall>n b. (n, b) \<noteq> (P, Base pair) \<longrightarrow>
          lookup2 (providerPrices p') n b = lookup2 (providerPrices p) n b \<and>
          lookup2 (providerCandles p') n b = lookup2 (providerCandles p) n b"
    unfolding pp pc by (auto simp: lookup2_def split: option.splits)
  show ?thesis unfolding r using a b c ok by simp
qed

theorem recordProviderResult_stores_witness:
  "lookup2 (providerPrices (fst (SetProviderTickerPricesAndCandles NewProviderAggregator ''Binance''
       [''ATOMUSD'' \<mapsto> \<lparr>Price = 11980000000000000000, Volume = 24000\<rparr>] Map.empty
       \<lparr>Base = ''ATOM'', Quote = ''USD''\<rparr>))) ''Binance'' ''ATOM''
     = Some \<lparr>Price = 11980000000000000000, Volume = 24000\<rparr> \<and>
   lookup2 (providerCandles (fst (SetProviderTickerPricesAndCandles NewProviderAggregator ''Binance''
       [''ATOMUSD'' \<mapsto> \<lparr>Price = 11980000000000000000, Volume = 24000\<rparr>] Map.empty
       \<lparr>Base = ''ATOM'', Quote = ''USD''\<rparr>))) ''Binance'' ''ATOM'' = None \<and>
   lookup2 (providerPrices (fst (SetProviderTickerPricesAndCandles NewProviderAggregator ''Binance''
       [''ATOMUSD'' \<mapsto> \<lparr>Price = 11980000000000000000, Volume = 24000\<rparr>] Map.empty
       \<lparr>Base = ''ATOM'', Quote = ''USD''\<rparr>))) ''Kraken'' ''ATOM'' = None \<and>
   snd (SetProviderTickerPricesAndCandles NewProviderAggregator ''Binance''
       [''ATOMUSD'' \<mapsto> \<lparr>Price = 11980000000000000000, Volume = 24000\<rparr>] Map.empty
       \<lparr>Base = ''ATOM'', Quote = ''USD''\<rparr>)"
  using recordProviderResult_stores [where p = NewProviderAggregator and P = "''Binance''"
       and ts = "[''ATOMUSD'' \<mapsto> \<lparr>Price = 11980000000000000000, Volume = 24000\<rparr>]"
       and cs = Map.empty and pair = "\<lparr>Base = ''ATOM'', Quote = ''USD''\<rparr>"]
  by (simp add: case_prod_beta CurrencyPair_String_def lookup2_def NewProviderAggregator_def)

text \<open>
  Claim C10. After every call for provider \<open>P\<close>, whatever it returns, \<open>P\<close> has an entry in
  both aggregated maps, and no provider that had an entry loses it. A call for a provider
  that lacked an entry therefore changes the aggregator even when it returns false.
\<close>

theorem recordProviderResult_keeps_provider:
  "case SetProviderTickerPricesAndCandles p P ts cs pair of
     (p', ok) \<Rightarrow>
       P \<in> dom (providerPrices p') \<and> P \<in> dom (providerCandles p') \<and>
       dom (providerPrices p) \<subseteq> dom (providerPrices p') \<and>
       dom (providerCandles p) \<subseteq> dom (providerCandles p') \<and>
       (P \<notin> dom (providerPrices p) \<or> P \<notin> dom (providerCandles p) \<longrightarrow> p' \<noteq> p)"
proof -
  obtain p' ok where r: "SetProviderTickerPricesAndCandles p P ts cs pair = (p', ok)"
    by (cases "SetProviderTickerPricesAndCandles p P ts cs pair")
  have pp: "dom (providerPrices p') = insert P (dom (providerPrices p))"
    using Set_providerPrices [of p P ts cs pair] r by simp
  have pc: "dom (providerCandles p') = insert P (dom (providerCandles p))"
    using Set_providerCandles [of p P ts cs pair] r by simp
  show ?thesis unfolding r using pp pc by auto
qed

theorem recordProviderResult_keeps_provider_witness:
  "\<not> snd (SetProviderTickerPricesAndCandles NewProviderAggregator ''Binance'' Map.empty Map.empty
       \<lparr>Base = ''ATOM'', Quote = ''USD''\<rparr>) \<and>
   ''Binance'' \<in> dom (providerPrices (fst (SetProviderTickerPricesAndCandles NewProviderAggregator
       ''Binance'' Map.empty Map.empty \<lparr>Base = ''ATOM'', Quote = ''USD''\<rparr>))) \<and>
   ''Binance'' \<in> dom (providerCandles (fst (SetProviderTickerPricesAndCandles NewProviderAggregator
       ''Binance'' Map.empty Map.empty \<lparr>Base = ''ATOM'', Quote = ''USD''\<rparr>))) \<and>
   fst (SetProviderTickerPricesAndCandles NewProviderAggregator
       ''Binance'' Map.empty Map.empty \<lparr>Base = ''ATOM'', Quote = ''USD''\<rparr>) \<noteq> NewProviderAggregator"
  using recordProviderResult_keeps_provider [where p = NewProviderAggregator and P = "''Binance''"
       and ts = Map.empty and cs = Map.empty and pair = "\<lparr>Base = ''ATOM'', Quote = ''USD''\<rparr>"]
    Set_result [of NewProviderAggregator "''Binance''" Map.empty Map.empty
       "\<lparr>Base = ''ATOM'', Quote = ''USD''\<rparr>"]
  by (simp add: case_prod_beta NewProviderAggregator_def)

section \<open>Facts about the codec\<close>

lemma of_char_digit_char: "d < 10 \<Longrightarrow> (of_char (digit_char d) :: nat) = 48 + d"
  by (simp add: digit_char_def)

lemma is_digit_digit_char: "d < 10 \<Longrightarrow> is_digit (digit_char d)"
  by (simp add: is_digit_def of_char_digit_char)

lemma digit_val_digit_char: "d < 10 \<Longrightarrow> digit_val (digit_char d) = d"
  by (simp add: digit_val_def of_char_digit_char)

lemma is_digit_simps: "\<not> is_digit (CHR ''-'')" "\<not> is_digit (CHR ''.'')" "is_digit (CHR ''0'')"
  "digit_val (CHR ''0'') = 0"
  by (simp_all add: is_digit_def digit_val_def)

lemma digits_val_snoc: "digits_val (ds @ [c]) = 10 * digits_val ds + digit_val c"
  by (simp add: digits_val_def)

lemma show_nat_digits: "list_all is_digit (show_nat n)"
proof (induction n rule: show_nat.induct)
  case (1 n)
  show ?case
  proof (cases "n < 10")
    case True
    then show ?thesis by (simp add: show_nat.simps [of n] is_digit_digit_char)
  next
    case False
    then show ?thesis
      using "1.IH" by (simp add: show_nat.simps [of n] is_digit_digit_char)
  qed
qed

lemma show_nat_not_Nil: "show_nat n \<noteq> []"
  by (simp add: show_nat.simps [of n])

lemma digits_val_show_nat: "digits_val (show_nat n) = n"
proof (induction n rule: show_nat.induct)
  case (1 n)
  show ?case
  proof (cases "n < 10")
    case True
    then show ?thesis
      by (simp add: show_nat.simps [of n] digits_val_def digit_val_digit_char)
  next
    case False
    then show ?thesis
      using "1.IH" by (simp add: show_nat.simps [of n] digits_val_snoc digit_val_digit_char)
  qed
qed

lemma length_show_nat: "0 < k \<Longrightarrow> n < 10 ^ k \<Longrightarrow> length (show_nat n) \<le> k"
proof (induction n arbitrary: k rule: show_nat.induct)
  case (1 n)
  show ?case
  proof (cases "n < 10")
    case True
    then show ?thesis using "1.prems" by (simp add: show_nat.simps [of n])
  next
    case False
    with "1.prems" obtain j where k: "k = Suc j" by (cases k) auto
    from False "1.prems" have "0 < j" by (cases j) (auto simp: k)
    moreover from "1.prems" have "n div 10 < 10 ^ j"
      by (simp add: k less_mult_imp_div_less mult.commute)
    ultimately have "length (show_nat (n div 10)) \<le> j"
      using "1.IH" False by simp
    then show ?thesis using False by (simp add: show_nat.simps [of n] k)
  qed
qed

lemma span_digits:
  "list_all is_digit ds \<Longrightarrow> ends_number rest \<Longrightarrow>
   takeWhile is_digit (ds @ rest) = ds \<and> dropWhile is_digit (ds @ rest) = rest"
  by (induction ds) (auto simp: ends_number_def split: list.splits)

lemma parse_nat_show_nat:
  "ends_number rest \<Longrightarrow> parse_nat (show_nat n @ rest) = Some (n, rest)"
  using span_digits [OF show_nat_digits, of rest n]
  by (simp add: parse_nat_def Let_def show_nat_not_Nil digits_val_show_nat)

lemma parse_sign_show_nat: "parse_sign (show_nat n @ rest) = (False, show_nat n @ rest)"
proof -
  obtain c cs where c: "show_nat n = c # cs" using show_nat_not_Nil [of n] by (cases "show_nat n") auto
  with show_nat_digits [of n] have "is_digit c" by simp
  then have "c \<noteq> CHR ''-''" using is_digit_simps(1) by auto
  then show ?thesis by (simp add: parse_sign_def c)
qed

lemma parse_int_show_int:
  "ends_number rest \<Longrightarrow> parse_int (show_int i @ rest) = Some (i, rest)"
proof (cases "i < 0")
  case True
  assume "ends_number rest"
  then show ?thesis
    using True by (simp add: parse_int_def show_int_def parse_sign_def parse_nat_show_nat)
next
  case False
  assume "ends_number rest"
  then show ?thesis
    using False by (simp add: parse_int_def show_int_def parse_sign_show_nat parse_nat_show_nat)
qed

lemma digits_val_zeros: "digits_val (replicate k (CHR ''0'') @ ds) = digits_val ds"
proof -
  have "\<And>a. foldl (\<lambda>a c. 10 * a + digit_val c) 0 (replicate k (CHR ''0'')) = 0"
    by (induction k) (simp_all add: is_digit_simps)
  then show ?thesis by (simp add: digits_val_def)
qed

lemma show_frac_props:
  assumes "f < 10 ^ Precision"
  shows "length (show_frac f) = Precision" "list_all is_digit (show_frac f)"
        "digits_val (show_frac f) = f"
proof -
  have "length (show_nat f) \<le> Precision"
    using assms by (intro length_show_nat) (simp_all add: Precision_def)
  then show "length (show_frac f) = Precision" by (simp add: show_frac_def)
  have "list_all is_digit (replicate k (CHR ''0''))" for k
    by (induction k) (simp_all add: is_digit_simps)
  then show "list_all is_digit (show_frac f)"
    by (simp add: show_frac_def show_nat_digits)
  show "digits_val (show_frac f) = f"
    by (simp add: show_frac_def digits_val_zeros digits_val_show_nat)
qed

lemma parse_dec_Dec_String: "parse_dec (Dec_String d @ rest) = Some (d, rest)"
proof -
  let ?m = "nat \<bar>d\<bar>"
  let ?ip = "?m div 10 ^ Precision"
  let ?fp = "?m mod 10 ^ Precision"
  have fp: "?fp < 10 ^ Precision" by simp
  note fr = show_frac_props [OF fp]
  have e: "ends_number (''.'' @ show_frac ?fp @ rest)"
    by (simp add: ends_number_def is_digit_simps)
  have pn: "parse_nat (show_nat ?ip @ ''.'' @ show_frac ?fp @ rest) =
              Some (?ip, ''.'' @ show_frac ?fp @ rest)"
    by (rule parse_nat_show_nat [OF e])
  have tk: "take Precision (show_frac ?fp @ rest) = show_frac ?fp"
           "drop Precision (show_frac ?fp @ rest) = rest"
    using fr(1) by simp_all
  have val: "int ?ip * 10 ^ Precision + int ?fp = \<bar>d\<bar>"
    by (metis (no_types) div_mult_mod_eq int_nat_eq abs_ge_zero of_nat_add of_nat_mult of_nat_numeral of_nat_power)
  show ?thesis
  proof (cases "d < 0")
    case True
    then show ?thesis
      using pn tk fr val by (simp add: parse_dec_def Dec_String_def parse_sign_def)
  next
    case False
    have "parse_sign (show_nat ?ip @ ''.'' @ show_frac ?fp @ rest) =
            (False, show_nat ?ip @ ''.'' @ show_frac ?fp @ rest)"
      by (rule parse_sign_show_nat)
    then show ?thesis
      using False pn tk fr val by (simp add: parse_dec_def Dec_String_def)
  qed
qed

lemma read_string_escape: "read_string (escape_string k @ dquote # rest) = Some (k, rest)"
proof (induction k)
  case Nil
  show ?case by (cases rest) simp_all
next
  case (Cons c k)
  obtain e es where e: "escape_string k @ dquote # rest = e # es"
    by (cases "escape_string k @ dquote # rest") auto
  show ?case
  proof (cases "c = dquote \<or> c = backslash")
    case True
    have nq: "backslash \<noteq> dquote" by (simp add: backslash_def dquote_def)
    from True show ?thesis using Cons.IH nq by auto
  next
    case False
    then show ?thesis using Cons.IH e by simp
  qed
qed

lemma parse_member_show_member: "parse_member (show_member (k, v) @ rest) = Some ((k, v), rest)"
  by (simp add: parse_member_def show_member_def quote_string_def read_string_escape
      parse_dec_Dec_String)

lemma show_member_not_close: "\<exists>cs. show_member m = dquote # cs"
  by (simp add: show_member_def quote_string_def)

lemma parse_members_show_members:
  "ms \<noteq> [] \<Longrightarrow> parse_members (show_members ms @ CHR ''}'' # rest) = Some (ms, rest)"
proof (induction ms rule: show_members.induct)
  case 1
  then show ?case by simp
next
  case (2 m)
  obtain k v where m: "m = (k, v)" by (cases m)
  show ?case
    by (subst parse_members.simps) (simp add: m parse_member_show_member)
next
  case (3 m m' ms)
  obtain k v where m: "m = (k, v)" by (cases m)
  have ih: "parse_members (show_members (m' # ms) @ CHR ''}'' # rest) = Some (m' # ms, rest)"
    using "3.IH" by simp
  show ?case
    by (subst parse_members.simps) (simp add: m parse_member_show_member ih)
qed

lemma parse_prices_show_prices: "parse_prices (show_prices ps @ rest) = Some (ps, rest)"
proof (cases ps)
  case Nil
  then show ?thesis by (simp add: parse_prices_def show_prices_def)
next
  case (Cons m ms)
  obtain cs where c: "show_member m = dquote # cs" using show_member_not_close by blast
  have q: "dquote \<noteq> CHR ''}''" by (simp add: dquote_def)
  have "\<exists>cs'. show_members (m # ms) = dquote # cs'"
    by (cases ms) (simp_all add: c)
  then obtain cs' where c': "show_members (m # ms) = dquote # cs'" ..
  have "parse_members (show_members (m # ms) @ CHR ''}'' # rest) = Some (m # ms, rest)"
    by (rule parse_members_show_members) simp
  then show ?thesis using q
    by (simp add: parse_prices_def show_prices_def Cons c')
qed

lemma insert_members_distinct:
  "distinct (map fst (acc @ ms)) \<Longrightarrow> insert_members ms acc = acc @ ms"
proof (induction ms arbitrary: acc)
  case Nil
  show ?case by (simp add: insert_members_def)
next
  case (Cons m ms)
  from Cons.prems have "fst m \<notin> fst ` set acc" by auto
  then have u: "AList.update (fst m) (snd m) acc = acc @ [m]"
    by (induction acc) auto
  from Cons.prems have "distinct (map fst ((acc @ [m]) @ ms))" by simp
  from Cons.IH [OF this] show ?case by (simp add: insert_members_def u)
qed

lemma strip_prefix_append: "strip_prefix p (p @ s) = Some s"
  by (simp add: strip_prefix_def)

lemma unmarshalJSON_marshalJSON:
  assumes "distinct (map fst (Prices ve))"
  shows "unmarshalJSON (encodeVoteExt ve) = Inr ve"
proof -
  let ?tail = "'','' @ quote_string ''Prices'' @ '':'' @ show_prices (Prices ve) @ ''}''"
  have s1: "strip_prefix (''{'' @ quote_string ''Height'' @ '':'') (encodeVoteExt ve) =
              Some (show_int (sint (Height ve)) @ ?tail)"
    unfolding encodeVoteExt_def
    using strip_prefix_append [of "''{'' @ quote_string ''Height'' @ '':''"] by simp
  have "ends_number ?tail" by (simp add: ends_number_def is_digit_def)
  then have s2: "parse_int (show_int (sint (Height ve)) @ ?tail) = Some (sint (Height ve), ?tail)"
    by (rule parse_int_show_int)
  have rng: "- (2 ^ 63) \<le> sint (Height ve) \<and> sint (Height ve) < 2 ^ 63"
    using sint_ge [of "Height ve"] sint_lt [of "Height ve"] by simp
  have s3: "strip_prefix ('','' @ quote_string ''Prices'' @ '':'') ?tail =
              Some (show_prices (Prices ve) @ ''}'')"
    using strip_prefix_append [of "'','' @ quote_string ''Prices'' @ '':''"] by simp
  have s4: "parse_prices (show_prices (Prices ve) @ ''}'') = Some (Prices ve, ''}'')"
    by (rule parse_prices_show_prices)
  have s5: "insert_members (Prices ve) [] = Prices ve"
    using insert_members_distinct [of "[]" "Prices ve"] assms by simp
  show ?thesis
    unfolding unmarshalJSON_def s1 using s2 rng s3 s4 s5 by simp
qed

text \<open>A decoded price map has each symbol once.\<close>

lemma insert_members_keys_distinct:
  "distinct (map fst acc) \<Longrightarrow> distinct (map fst (insert_members ms acc))"
proof (induction ms arbitrary: acc)
  case Nil
  then show ?case by (simp add: insert_members_def)
next
  case (Cons m ms)
  from Cons.prems have "distinct (map fst (AList.update (fst m) (snd m) acc))"
    by (simp add: distinct_update)
  from Cons.IH [OF this] show ?case by (simp add: insert_members_def)
qed

lemma unmarshalJSON_distinct:
  "unmarshalJSON bz = Inr ve \<Longrightarrow> distinct (map fst (Prices ve))"
  using insert_members_keys_distinct [of "[]"]
  by (auto simp: unmarshalJSON_def split: option.splits if_splits prod.splits)

section \<open>Claim about the codec\<close>

text \<open>
  Claim C7. Serializing an \<^verbatim>\<open>OracleVoteExtension\<close> and deserializing the bytes gives the
  value back, equal in the height and in every entry of the price map: for every height,
  and for every price map (an association list in which each symbol occurs once, as in a
  Go map) of any number of symbols, with any integer as the scaled decimal.
\<close>

theorem voteExt_roundtrip:
  assumes "distinct (map fst (Prices ve))"
  shows "\<exists>bz. marshalJSON ve = Inr bz \<and> unmarshalJSON bz = Inr ve"
  using unmarshalJSON_marshalJSON [OF assms] by (simp add: marshalJSON_def)

theorem voteExt_roundtrip_witness:
  "unmarshalJSON (encodeVoteExt
     \<lparr>Height = - 3, Prices = [(''ATOM'', 10200000000000000000), (''ETH'', - 5), ([dquote, backslash], 0)]\<rparr>) =
   Inr \<lparr>Height = - 3, Prices = [(''ATOM'', 10200000000000000000), (''ETH'', - 5), ([dquote, backslash], 0)]\<rparr> \<and>
   unmarshalJSON (encodeVoteExt \<lparr>Height = 100, Prices = []\<rparr>) = Inr \<lparr>Height = 100, Prices = []\<rparr>"
  using voteExt_roundtrip [of "\<lparr>Height = - 3,
      Prices = [(''ATOM'', 10200000000000000000), (''ETH'', - 5), ([dquote, backslash], 0)]\<rparr>"]
    voteExt_roundtrip [of "\<lparr>Height = 100, Prices = []\<rparr>"]
  by (simp add: marshalJSON_def dquote_def backslash_def)

section \<open>Facts about the stake-weighted aggregation\<close>

lemma weighted_Nil [simp]: "weighted w [] b = 0"
  by (simp add: weighted_def)

lemma weighted_Cons [simp]:
  "weighted w ((k, p) # ps) b = (if k = b then MulInt64 p w else 0) + weighted w ps b"
  by (simp add: weighted_def)

lemma addPrices_keys: "map fst (addPrices w ps swp) = map fst swp"
proof (induction ps arbitrary: swp)
  case Nil
  show ?case by simp
next
  case (Cons e ps)
  obtain base price where e: "e = (base, price)" by (cases e)
  show ?case
  proof (cases "map_of swp base")
    case None
    then show ?thesis using Cons.IH [of swp] by (simp add: e)
  next
    case (Some cur)
    then have "base \<in> set (map fst swp)"
      by (metis map_of_eq_None_iff option.distinct(1) set_map)
    then have "map fst (AList.update base (Add cur (MulInt64 price w)) swp) = map fst swp"
      by (simp add: update_keys)
    then show ?thesis
      using Cons.IH [of "AList.update base (Add cur (MulInt64 price w)) swp"] Some
      by (simp add: e)
  qed
qed

lemma addPrices_map_of:
  "map_of (addPrices w ps swp) b = map_option (\<lambda>t. t + weighted w ps b) (map_of swp b)"
proof (induction ps arbitrary: swp)
  case Nil
  show ?case by (simp add: option.map_ident)
next
  case (Cons e ps)
  obtain base price where e: "e = (base, price)" by (cases e)
  show ?case
  proof (cases "map_of swp base")
    case None
    then show ?thesis using Cons.IH [of swp] by (cases "map_of swp b") (auto simp: e)
  next
    case (Some cur)
    show ?thesis
      using Cons.IH [of "AList.update base (Add cur (MulInt64 price w)) swp"] Some
      by (cases "map_of swp b") (auto simp: e update_conv' Add_def)
  qed
qed

lemma tallyVotes_decoded:
  "list_all (decodes um) vs \<Longrightarrow>
   \<exists>swp'. tallyVotes um vs swp tot = Inr (swp', tot + totalPower vs) \<and>
          map fst swp' = map fst swp \<and>
          (\<forall>b. map_of swp' b =
                 map_option (\<lambda>t. t + (\<Sum>v \<leftarrow> vs. voteWeight um v b)) (map_of swp b))"
proof (induction vs arbitrary: swp tot)
  case Nil
  show ?case by (simp add: totalPower_def option.map_ident)
next
  case (Cons v vs)
  from Cons.prems obtain ve where ve: "um (VoteExtension v) = Inr ve"
    by (cases "um (VoteExtension v)") (auto simp: decodes_def)
  from Cons.prems have rest: "list_all (decodes um) vs" by simp
  let ?swp1 = "addPrices (Power (Validator v)) (Prices ve) swp"
  from Cons.IH [OF rest, of ?swp1 "tot + Power (Validator v)"]
  obtain swp' where
    t: "tallyVotes um vs ?swp1 (tot + Power (Validator v)) =
          Inr (swp', tot + Power (Validator v) + totalPower vs)" and
    k: "map fst swp' = map fst ?swp1" and
    m: "\<And>b. map_of swp' b =
          map_option (\<lambda>t. t + (\<Sum>v \<leftarrow> vs. voteWeight um v b)) (map_of ?swp1 b)"
    by blast
  have tp: "tot + Power (Validator v) + totalPower vs = tot + totalPower (v # vs)"
    by (simp add: totalPower_def)
  have vw: "\<And>b. voteWeight um v b = weighted (Power (Validator v)) (Prices ve) b"
    by (simp add: voteWeight_def ve)
  have "\<And>b. map_of swp' b =
          map_option (\<lambda>t. t + (\<Sum>v \<leftarrow> v # vs. voteWeight um v b)) (map_of swp b)"
    unfolding m addPrices_map_of by (simp add: option.map_comp comp_def vw add.assoc)
  then show ?case
    using t k tp by (simp add: ve addPrices_keys)
qed

lemma tallyVotes_undecodable:
  "\<not> list_all (decodes um) vs \<Longrightarrow> \<exists>err. tallyVotes um vs swp tot = Inl err"
proof (induction vs arbitrary: swp tot)
  case Nil
  then show ?case by simp
next
  case (Cons v vs)
  show ?case
  proof (cases "um (VoteExtension v)")
    case (Inl e)
    then show ?thesis by simp
  next
    case (Inr ve)
    then have "\<not> list_all (decodes um) vs"
      using Cons.prems by (simp add: list_all_iff decodes_def)
    from Cons.IH [OF this] show ?thesis by (simp add: Inr)
  qed
qed

lemma alist_eqI:
  "map fst xs = map fst ys \<Longrightarrow> distinct (map fst xs) \<Longrightarrow> map_of xs = map_of ys \<Longrightarrow> xs = ys"
proof (induction xs arbitrary: ys)
  case Nil
  then show ?case by simp
next
  case (Cons x xs)
  from Cons.prems(1) obtain y ys' where ys: "ys = y # ys'" by (cases ys) auto
  obtain k v where x: "x = (k, v)" by (cases x)
  obtain k' v' where y: "y = (k', v')" by (cases y)
  from Cons.prems(1) have kk: "k' = k" and keys: "map fst xs = map fst ys'"
    by (simp_all add: ys x y)
  have "map_of (x # xs) k = map_of ys k" by (rule fun_cong [OF Cons.prems(3)])
  then have vv: "v' = v" by (simp add: ys x y kk)
  have d: "distinct (map fst xs)" and nk: "k \<notin> fst ` set xs"
    using Cons.prems(2) by (simp_all add: x)
  have nk': "k \<notin> fst ` set ys'"
    using nk keys by (metis set_map)
  have "map_of xs = map_of ys'"
  proof
    fix a
    show "map_of xs a = map_of ys' a"
    proof (cases "a = k")
      case True
      have "map_of xs k = None" "map_of ys' k = None"
        using nk nk' by (simp_all add: map_of_eq_None_iff)
      then show ?thesis using True by simp
    next
      case False
      have "map_of (x # xs) a = map_of ys a" by (rule fun_cong [OF Cons.prems(3)])
      then show ?thesis using False by (simp add: ys x y kk)
    qed
  qed
  from Cons.IH [OF keys d this] show ?case by (simp add: ys x y kk vv)
qed

lemma initPrices_distinct:
  "distinct (map fst swp) \<Longrightarrow> distinct (map fst (initPrices pairs swp))"
  by (induction pairs arbitrary: swp) (simp_all add: distinct_update)

lemma sum_list_perm:
  fixes f :: "'a \<Rightarrow> 'b::comm_monoid_add"
  shows "mset xs = mset ys \<Longrightarrow> sum_list (map f xs) = sum_list (map f ys)"
  by (metis mset_map sum_mset_sum_list)

lemma tallyVotes_perm:
  assumes p: "mset vs' = mset vs" and d: "list_all (decodes um) vs"
      and dist: "distinct (map fst swp)"
  shows "tallyVotes um vs' swp tot = tallyVotes um vs swp tot"
proof -
  from p have s: "set vs' = set vs" by (rule mset_eq_setD)
  with d have d': "list_all (decodes um) vs'" by (simp add: list_all_iff)
  from tallyVotes_decoded [OF d, of swp tot] obtain a where
    a: "tallyVotes um vs swp tot = Inr (a, tot + totalPower vs)" and
    ak: "map fst a = map fst swp" and
    am: "\<And>b. map_of a b =
          map_option (\<lambda>t. t + (\<Sum>v \<leftarrow> vs. voteWeight um v b)) (map_of swp b)"
    by blast
  from tallyVotes_decoded [OF d', of swp tot] obtain a' where
    a': "tallyVotes um vs' swp tot = Inr (a', tot + totalPower vs')" and
    ak': "map fst a' = map fst swp" and
    am': "\<And>b. map_of a' b =
          map_option (\<lambda>t. t + (\<Sum>v \<leftarrow> vs'. voteWeight um v b)) (map_of swp b)"
    by blast
  have tp: "totalPower vs' = totalPower vs"
    unfolding totalPower_def by (rule sum_list_perm [OF p])
  have "\<And>b. (\<Sum>v \<leftarrow> vs'. voteWeight um v b) = (\<Sum>v \<leftarrow> vs. voteWeight um v b)"
    by (rule sum_list_perm [OF p])
  then have "map_of a' = map_of a" using am am' by auto
  moreover have "map fst a' = map fst a" using ak ak' by simp
  moreover have "distinct (map fst a')" using ak' dist by simp
  ultimately have "a' = a" by (rule alist_eqI [rotated 2])
  then show ?thesis using a a' tp by simp
qed

lemma zero_stake_panics:
  assumes d: "list_all (decodes unmarshal) (Votes ci)" and z: "totalPower (Votes ci) = 0"
  shows "computeStakeWeightedOraclePrices unmarshal h ci = Panics DivisionByZero"
proof -
  let ?init = "initPrices (GetSupportedPairs (fauxOracleKeeper h)) []"
  from tallyVotes_decoded [OF d, of ?init 0] obtain summed where
    t: "tallyVotes unmarshal (Votes ci) ?init 0 = Inr (summed, 0)" and
    k: "map fst summed = map fst ?init"
    using z by auto
  have "map fst ?init = [''ATOM'']"
    by (simp add: GetSupportedPairs_def)
  with k obtain total where "summed = [(''ATOM'', total)]"
    by (cases summed) auto
  then have "finalizePrices summed 0 summed = Panics DivisionByZero"
    by (simp add: QuoInt64_def)
  with t show ?thesis
    by (simp add: computeStakeWeightedOraclePrices_def Let_def)
qed

lemma zero_stake_panics_inline:
  assumes d: "list_all (decodes unmarshal) (Votes (LocalLastCommit req))"
      and z: "totalPower (Votes (LocalLastCommit req)) = 0"
  shows "PrepareProposal_inline unmarshal marshal h req = Panics DivisionByZero"
proof -
  let ?init = "initPrices (GetSupportedPairs (fauxOracleKeeper h)) []"
  from tallyVotes_decoded [OF d, of ?init 0] obtain summed where
    t: "tallyVotes unmarshal (Votes (LocalLastCommit req)) ?init 0 = Inr (summed, 0)" and
    k: "map fst summed = map fst ?init"
    using z by auto
  have "map fst ?init = [''ATOM'']"
    by (simp add: GetSupportedPairs_def)
  with k obtain total where "summed = [(''ATOM'', total)]"
    by (cases summed) auto
  then have "finalizePrices summed 0 summed = Panics DivisionByZero"
    by (simp add: QuoInt64_def)
  with t show ?thesis
    by (simp add: PrepareProposal_inline_def Let_def)
qed

lemma finalizePrices_total:
  "totalStake \<noteq> 0 \<Longrightarrow> \<exists>r. finalizePrices es totalStake swp = Returns r"
  by (induction es totalStake swp rule: finalizePrices.induct) (simp_all add: QuoInt64_def)

lemma aggregate_cases:
  "(\<not> list_all (decodes um) (Votes ci) \<longrightarrow>
      (\<exists>err. computeStakeWeightedOraclePrices um h ci = Returns (Inl err))) \<and>
   (list_all (decodes um) (Votes ci) \<and> totalPower (Votes ci) \<noteq> 0 \<longrightarrow>
      (\<exists>swp. computeStakeWeightedOraclePrices um h ci = Returns (Inr swp)))"
proof (intro conjI impI)
  assume "\<not> list_all (decodes um) (Votes ci)"
  from tallyVotes_undecodable [OF this]
  show "\<exists>err. computeStakeWeightedOraclePrices um h ci = Returns (Inl err)"
    by (metis (no_types, lifting) computeStakeWeightedOraclePrices_def sum.simps(5))
next
  assume a: "list_all (decodes um) (Votes ci) \<and> totalPower (Votes ci) \<noteq> 0"
  let ?init = "initPrices (GetSupportedPairs (fauxOracleKeeper h)) []"
  from tallyVotes_decoded [of um "Votes ci" ?init 0] a obtain summed where
    t: "tallyVotes um (Votes ci) ?init 0 = Inr (summed, totalPower (Votes ci))"
    by auto
  from finalizePrices_total [of "totalPower (Votes ci)" summed summed] a
  obtain r where "finalizePrices summed (totalPower (Votes ci)) summed = Returns r" by blast
  with t show "\<exists>swp. computeStakeWeightedOraclePrices um h ci = Returns (Inr swp)"
    by (simp add: computeStakeWeightedOraclePrices_def Let_def)
qed

text \<open>
  The order in which a range loop visits a map does not matter: any order of a vote's
  prices gives the same totals, and any order of the totals gives the same averages.
\<close>

lemma weighted_perm: "mset ps' = mset ps \<Longrightarrow> weighted w ps' b = weighted w ps b"
  unfolding weighted_def by (rule sum_list_perm)

lemma addPrices_order:
  assumes "mset ps' = mset ps" and "distinct (map fst swp)"
  shows "addPrices w ps' swp = addPrices w ps swp"
proof (rule alist_eqI)
  show "map fst (addPrices w ps' swp) = map fst (addPrices w ps swp)"
    by (simp add: addPrices_keys)
  show "distinct (map fst (addPrices w ps' swp))"
    using assms(2) by (simp add: addPrices_keys)
  show "map_of (addPrices w ps' swp) = map_of (addPrices w ps swp)"
    by (rule ext) (simp add: addPrices_map_of weighted_perm [OF assms(1)])
qed

lemma finalizePrices_divides:
  assumes "totalStake \<noteq> 0" and "distinct (map fst es)" and "fst ` set es \<subseteq> fst ` set cur"
  shows "\<exists>r. finalizePrices es totalStake cur = Returns r \<and> map fst r = map fst cur \<and>
             (\<forall>b. map_of r b =
                    (case map_of es b of
                       Some p \<Rightarrow> Some (p sdiv sint totalStake)
                     | None \<Rightarrow> map_of cur b))"
  using assms(2,3)
proof (induction es arbitrary: cur)
  case Nil
  show ?case by simp
next
  case (Cons e es)
  obtain base price where e: "e = (base, price)" by (cases e)
  let ?q = "price sdiv sint totalStake"
  let ?cur = "AList.update base ?q cur"
  from Cons.prems have inb: "base \<in> fst ` set cur" and nb: "base \<notin> fst ` set es"
    and d: "distinct (map fst es)" and sub: "fst ` set es \<subseteq> fst ` set cur"
    by (auto simp: e)
  have keys: "map fst ?cur = map fst cur" using inb by (simp add: update_keys)
  then have "fst ` set es \<subseteq> fst ` set ?cur" using sub by (metis set_map)
  from Cons.IH [OF d this] obtain r where
    r: "finalizePrices es totalStake ?cur = Returns r" and
    rk: "map fst r = map fst ?cur" and
    rm: "\<And>b. map_of r b = (case map_of es b of Some p \<Rightarrow> Some (p sdiv sint totalStake)
                               | None \<Rightarrow> map_of ?cur b)"
    by blast
  have none: "map_of es base = None" using nb by (simp add: map_of_eq_None_iff)
  have "\<And>b. map_of r b = (case map_of (e # es) b of Some p \<Rightarrow> Some (p sdiv sint totalStake)
                               | None \<Rightarrow> map_of cur b)"
    unfolding rm by (auto simp: e none update_conv' split: option.splits)
  then show ?case
    using r rk keys assms(1) by (simp add: e QuoInt64_def)
qed

lemma finalizePrices_order:
  assumes "totalStake \<noteq> 0" and "distinct (map fst swp)" and "mset es = mset swp"
  shows "finalizePrices es totalStake swp = finalizePrices swp totalStake swp"
proof -
  from assms(3) have s: "set es = set swp" by (rule mset_eq_setD)
  have "mset (map fst es) = mset (map fst swp)" using assms(3) by (metis mset_map)
  then have d: "distinct (map fst es)" using assms(2) by (metis mset_eq_imp_distinct_iff)
  have mo: "map_of es = map_of swp"
    using d assms(2) s by (simp add: map_of_inject_set)
  from finalizePrices_divides [OF assms(1) d, of swp] s obtain r where
    r: "finalizePrices es totalStake swp = Returns r" "map fst r = map fst swp"
       "\<And>b. map_of r b = (case map_of es b of Some p \<Rightarrow> Some (p sdiv sint totalStake)
                               | None \<Rightarrow> map_of swp b)"
    by auto
  from finalizePrices_divides [OF assms(1,2), of swp] obtain r' where
    r': "finalizePrices swp totalStake swp = Returns r'" "map fst r' = map fst swp"
        "\<And>b. map_of r' b = (case map_of swp b of Some p \<Rightarrow> Some (p sdiv sint totalStake)
                               | None \<Rightarrow> map_of swp b)"
    by auto
  have "r = r'"
  proof (rule alist_eqI)
    show "map fst r = map fst r'" using r(2) r'(2) by simp
    show "distinct (map fst r)" using r(2) assms(2) by simp
    show "map_of r = map_of r'" by (rule ext) (simp add: r(3) r'(3) mo)
  qed
  with r(1) r'(1) show ?thesis by simp
qed

text \<open>The aggregate in closed form, for the one supported base.\<close>

lemma aggregate_value:
  assumes "list_all (decodes um) (Votes ci)" and "totalPower (Votes ci) \<noteq> 0"
  shows "computeStakeWeightedOraclePrices um h ci =
           Returns (Inr [(''ATOM'',
             (\<Sum>v \<leftarrow> Votes ci. voteWeight um v ''ATOM'') sdiv sint (totalPower (Votes ci)))])"
proof -
  let ?init = "initPrices (GetSupportedPairs (fauxOracleKeeper h)) []"
  have init: "?init = [(''ATOM'', 0)]" by (simp add: GetSupportedPairs_def ZeroDec_def)
  from tallyVotes_decoded [OF assms(1), of ?init 0] obtain summed where
    t: "tallyVotes um (Votes ci) ?init 0 = Inr (summed, totalPower (Votes ci))" and
    k: "map fst summed = map fst ?init" and
    m: "\<And>b. map_of summed b =
          map_option (\<lambda>t. t + (\<Sum>v \<leftarrow> Votes ci. voteWeight um v b)) (map_of ?init b)"
    by auto
  from k init obtain total where s: "summed = [(''ATOM'', total)]"
    by (cases summed) auto
  from m [of "''ATOM''"] have "total = (\<Sum>v \<leftarrow> Votes ci. voteWeight um v ''ATOM'')"
    by (simp add: s init)
  with t s assms(2) show ?thesis
    by (simp add: computeStakeWeightedOraclePrices_def Let_def QuoInt64_def)
qed

lemma unmarshal_atom_ext:
  "unmarshalJSON (atom_ext p) = Inr \<lparr>Height = 100, Prices = [(''ATOM'', p)]\<rparr>"
  by (simp add: atom_ext_def unmarshalJSON_marshalJSON)

lemma three_votes_decode: "list_all (decodes unmarshalJSON) three_votes"
  by (simp add: three_votes_def vote_def decodes_def unmarshal_atom_ext)

lemma three_votes_average:
  "computeStakeWeightedOraclePrices unmarshalJSON h \<lparr>Round = r, Votes = three_votes\<rparr> =
     Returns (Inr [(''ATOM'', 10000000000000000000)])"
  by (simp add: computeStakeWeightedOraclePrices_def GetSupportedPairs_def three_votes_def
      vote_def unmarshal_atom_ext ZeroDec_def Add_def MulInt64_def QuoInt64_def
      signed_divide_int_def)

lemma unmarshal_not_json: "unmarshalJSON ''not json'' = Inl SyntaxError"
  by (simp add: unmarshalJSON_def strip_prefix_def quote_string_def)

lemma garbled_votes_undecodable: "\<not> list_all (decodes unmarshalJSON) garbled_votes"
  by (simp add: garbled_votes_def vote_def decodes_def unmarshal_not_json)

section \<open>Claims about the proposal handler\<close>

text \<open>
  Claim C6. For votes that all decode, the aggregate does not depend on the order of the
  votes: a permutation of the list gives the same outcome, with the same price for every
  base. The arithmetic is exact, so the results are equal, not merely close.
\<close>

theorem stake_weighted_order_independent:
  assumes "mset votes' = mset votes"
      and "list_all (decodes unmarshal) votes"
  shows "computeStakeWeightedOraclePrices unmarshal h (ci\<lparr>Votes := votes'\<rparr>) =
         computeStakeWeightedOraclePrices unmarshal h (ci\<lparr>Votes := votes\<rparr>)"
proof -
  have "distinct (map fst (initPrices (GetSupportedPairs (fauxOracleKeeper h)) []))"
    by (rule initPrices_distinct) simp
  from tallyVotes_perm [OF assms this]
  show ?thesis by (simp add: computeStakeWeightedOraclePrices_def Let_def)
qed

theorem stake_weighted_order_independent_witness:
  "computeStakeWeightedOraclePrices unmarshalJSON a_proposal_handler
     \<lparr>Round = 0, Votes = rev three_votes\<rparr> =
   computeStakeWeightedOraclePrices unmarshalJSON a_proposal_handler
     \<lparr>Round = 0, Votes = three_votes\<rparr> \<and>
   computeStakeWeightedOraclePrices unmarshalJSON a_proposal_handler
     \<lparr>Round = 0, Votes = rev three_votes\<rparr> = Returns (Inr [(''ATOM'', 10000000000000000000)])"
  using stake_weighted_order_independent [of "rev three_votes" three_votes unmarshalJSON
      a_proposal_handler "\<lparr>Round = 0, Votes = []\<rparr>"] three_votes_decode
    three_votes_average [of a_proposal_handler 0]
  by simp

text \<open>
  Claim C1. The claim is that the aggregation refuses to divide when the total voting
  power is zero. The code has no such check: when all votes decode and the powers sum to
  zero (no votes at all, for one), the loop over the totals calls \<^verbatim>\<open>QuoInt64\<close> with a
  zero divisor and panics. No error is returned, and \<^verbatim>\<open>PrepareProposal\<close> does not reach
  its error branch.
\<close>

theorem zero_total_stake_divides:
  assumes "list_all (decodes unmarshal) (Votes ci)" and "totalPower (Votes ci) = 0"
  shows "computeStakeWeightedOraclePrices unmarshal h ci = Panics DivisionByZero \<and>
         PrepareProposal unmarshal marshal h \<lparr>LocalLastCommit = ci\<rparr> = Panics DivisionByZero"
  using zero_stake_panics [OF assms, of h] by (simp add: PrepareProposal_def)

theorem zero_total_stake_divides_witness:
  "computeStakeWeightedOraclePrices unmarshalJSON a_proposal_handler \<lparr>Round = 0, Votes = []\<rparr>
     = Panics DivisionByZero \<and>
   PrepareProposal unmarshalJSON (\<lambda>tx. Inr ''tx'') a_proposal_handler
     \<lparr>LocalLastCommit = \<lparr>Round = 0, Votes = []\<rparr>\<rparr> = Panics DivisionByZero"
  using zero_total_stake_divides [of unmarshalJSON "\<lparr>Round = 0, Votes = []\<rparr>"
      a_proposal_handler "\<lambda>tx. Inr ''tx''"]
  by (simp add: totalPower_def)

text \<open>
  The error paths of \<^verbatim>\<open>PrepareProposal\<close>. When a vote extension of the commit-info fails
  to decode, and when encoding the injected record fails, it returns the empty response,
  with no transaction; this holds for the handler and for its earlier revision with the
  aggregation inline. A response that carries a transaction carries exactly the encoded
  record of a successful aggregation. The one outcome that is not a response is the panic
  on a zero total stake.
\<close>

lemma PrepareProposal_absorbs_errors:
  "(\<not> list_all (decodes unmarshal) (Votes (LocalLastCommit req)) \<longrightarrow>
      PrepareProposal unmarshal marshal h req = Returns \<lparr>Prepare_Txs = []\<rparr> \<and>
      PrepareProposal_inline unmarshal marshal' h req = Returns \<lparr>Prepare_Txs = []\<rparr>) \<and>
   (\<forall>swp err.
      computeStakeWeightedOraclePrices unmarshal h (LocalLastCommit req) = Returns (Inr swp) \<and>
      marshal \<lparr>StakeWeightedPrices = swp, ExtendedCommitInfo = LocalLastCommit req\<rparr> = Inl err \<longrightarrow>
      PrepareProposal unmarshal marshal h req = Returns \<lparr>Prepare_Txs = []\<rparr>) \<and>
   (\<forall>swp err.
      computeStakeWeightedOraclePrices unmarshal h (LocalLastCommit req) = Returns (Inr swp) \<and>
      marshal' (swp, Votes (LocalLastCommit req)) = Inl err \<longrightarrow>
      PrepareProposal_inline unmarshal marshal' h req = Returns \<lparr>Prepare_Txs = []\<rparr>) \<and>
   (\<forall>resp. PrepareProposal unmarshal marshal h req = Returns resp \<and> Prepare_Txs resp \<noteq> [] \<longrightarrow>
      (\<exists>swp bz.
         computeStakeWeightedOraclePrices unmarshal h (LocalLastCommit req) = Returns (Inr swp) \<and>
         marshal \<lparr>StakeWeightedPrices = swp, ExtendedCommitInfo = LocalLastCommit req\<rparr> = Inr bz \<and>
         Prepare_Txs resp = [bz])) \<and>
   (\<forall>p. PrepareProposal unmarshal marshal h req = Panics p \<longrightarrow>
      list_all (decodes unmarshal) (Votes (LocalLastCommit req)) \<and>
      totalPower (Votes (LocalLastCommit req)) = 0)"
proof (intro conjI impI allI)
  assume nd: "\<not> list_all (decodes unmarshal) (Votes (LocalLastCommit req))"
  from tallyVotes_undecodable [OF nd] obtain err where
    t: "tallyVotes unmarshal (Votes (LocalLastCommit req))
          (initPrices (GetSupportedPairs (fauxOracleKeeper h)) []) 0 = Inl err"
    by blast
  then show "PrepareProposal unmarshal marshal h req = Returns \<lparr>Prepare_Txs = []\<rparr>"
    by (simp add: PrepareProposal_def computeStakeWeightedOraclePrices_def Let_def)
  from t show "PrepareProposal_inline unmarshal marshal' h req = Returns \<lparr>Prepare_Txs = []\<rparr>"
    by (simp add: PrepareProposal_inline_def Let_def)
next
  fix swp err
  assume "computeStakeWeightedOraclePrices unmarshal h (LocalLastCommit req) = Returns (Inr swp) \<and>
      marshal \<lparr>StakeWeightedPrices = swp, ExtendedCommitInfo = LocalLastCommit req\<rparr> = Inl err"
  then show "PrepareProposal unmarshal marshal h req = Returns \<lparr>Prepare_Txs = []\<rparr>"
    by (simp add: PrepareProposal_def)
next
  fix swp err
  assume "computeStakeWeightedOraclePrices unmarshal h (LocalLastCommit req) = Returns (Inr swp) \<and>
      marshal' (swp, Votes (LocalLastCommit req)) = Inl err"
  then show "PrepareProposal_inline unmarshal marshal' h req = Returns \<lparr>Prepare_Txs = []\<rparr>"
    by (auto simp: PrepareProposal_inline_def computeStakeWeightedOraclePrices_def Let_def
        split: sum.splits outcome.splits prod.splits)
next
  fix resp
  assume "PrepareProposal unmarshal marshal h req = Returns resp \<and> Prepare_Txs resp \<noteq> []"
  then show "\<exists>swp bz.
         computeStakeWeightedOraclePrices unmarshal h (LocalLastCommit req) = Returns (Inr swp) \<and>
         marshal \<lparr>StakeWeightedPrices = swp, ExtendedCommitInfo = LocalLastCommit req\<rparr> = Inr bz \<and>
         Prepare_Txs resp = [bz]"
    by (auto simp: PrepareProposal_def split: sum.splits outcome.splits)
next
  fix p
  assume pn: "PrepareProposal unmarshal marshal h req = Panics p"
  have ret: "\<exists>resp. PrepareProposal unmarshal marshal h req = Returns resp"
    if "\<exists>r. computeStakeWeightedOraclePrices unmarshal h (LocalLastCommit req) = Returns r"
    using that by (auto simp: PrepareProposal_def split: sum.splits)
  show "list_all (decodes unmarshal) (Votes (LocalLastCommit req))"
    using aggregate_cases [of unmarshal "LocalLastCommit req" h] ret pn by fastforce
  show "totalPower (Votes (LocalLastCommit req)) = 0"
    using aggregate_cases [of unmarshal "LocalLastCommit req" h] ret pn by fastforce
qed

lemma PrepareProposal_absorbs_errors_scenarios:
  "\<not> list_all (decodes unmarshalJSON) garbled_votes \<and>
   PrepareProposal unmarshalJSON (\<lambda>tx. Inr ''tx'') a_proposal_handler
     \<lparr>LocalLastCommit = \<lparr>Round = 0, Votes = garbled_votes\<rparr>\<rparr> = Returns \<lparr>Prepare_Txs = []\<rparr> \<and>
   PrepareProposal_inline unmarshalJSON (\<lambda>tx. Inr ''tx'') a_proposal_handler
     \<lparr>LocalLastCommit = \<lparr>Round = 0, Votes = garbled_votes\<rparr>\<rparr> = Returns \<lparr>Prepare_Txs = []\<rparr> \<and>
   computeStakeWeightedOraclePrices unmarshalJSON a_proposal_handler \<lparr>Round = 0, Votes = three_votes\<rparr>
     = Returns (Inr [(''ATOM'', 10000000000000000000)]) \<and>
   PrepareProposal unmarshalJSON (\<lambda>tx. Inl SyntaxError) a_proposal_handler
     \<lparr>LocalLastCommit = \<lparr>Round = 0, Votes = three_votes\<rparr>\<rparr> = Returns \<lparr>Prepare_Txs = []\<rparr>"
proof -
  have nd: "\<not> list_all (decodes unmarshalJSON) garbled_votes"
    by (simp add: garbled_votes_def vote_def decodes_def unmarshal_not_json)
  have av: "computeStakeWeightedOraclePrices unmarshalJSON a_proposal_handler
      \<lparr>Round = 0, Votes = three_votes\<rparr> = Returns (Inr [(''ATOM'', 10000000000000000000)])"
    by (rule three_votes_average)
  from PrepareProposal_absorbs_errors [where unmarshal = unmarshalJSON
      and req = "\<lparr>LocalLastCommit = \<lparr>Round = 0, Votes = garbled_votes\<rparr>\<rparr>"
      and marshal = "\<lambda>tx. Inr ''tx''" and marshal' = "\<lambda>tx. Inr ''tx''" and h = a_proposal_handler]
    nd
  have g: "PrepareProposal unmarshalJSON (\<lambda>tx. Inr ''tx'') a_proposal_handler
       \<lparr>LocalLastCommit = \<lparr>Round = 0, Votes = garbled_votes\<rparr>\<rparr> = Returns \<lparr>Prepare_Txs = []\<rparr> \<and>
     PrepareProposal_inline unmarshalJSON (\<lambda>tx. Inr ''tx'') a_proposal_handler
       \<lparr>LocalLastCommit = \<lparr>Round = 0, Votes = garbled_votes\<rparr>\<rparr> = Returns \<lparr>Prepare_Txs = []\<rparr>"
    by simp
  from PrepareProposal_absorbs_errors [where unmarshal = unmarshalJSON
      and req = "\<lparr>LocalLastCommit = \<lparr>Round = 0, Votes = three_votes\<rparr>\<rparr>"
      and marshal = "\<lambda>tx. Inl SyntaxError" and marshal' = "\<lambda>tx. Inr ''tx''"
      and h = a_proposal_handler] av
  have m: "PrepareProposal unmarshalJSON (\<lambda>tx. Inl SyntaxError) a_proposal_handler
     \<lparr>LocalLastCommit = \<lparr>Round = 0, Votes = three_votes\<rparr>\<rparr> = Returns \<lparr>Prepare_Txs = []\<rparr>"
    by simp
  from nd g av m show ?thesis by simp
qed

text \<open>
  Claim C9. The claim is that \<^verbatim>\<open>PrepareProposal\<close>, for every input, answers a failed
  aggregation with the empty response and lets no failure through to the host. That holds
  on the two error paths above and fails on a zero total stake: when all votes decode and
  the powers sum to zero (no votes at all, for one), the division panics, no error is
  there to be absorbed, and the panic leaves \<^verbatim>\<open>PrepareProposal\<close>, in the handler and in its
  earlier revision alike. It is the missing check of claim C1.
\<close>

theorem PrepareProposal_propagates_zero_stake:
  assumes "list_all (decodes unmarshal) (Votes (LocalLastCommit req))"
      and "totalPower (Votes (LocalLastCommit req)) = 0"
  shows "PrepareProposal unmarshal marshal h req = Panics DivisionByZero \<and>
         PrepareProposal unmarshal marshal h req \<noteq> Returns \<lparr>Prepare_Txs = []\<rparr> \<and>
         PrepareProposal_inline unmarshal marshal' h req = Panics DivisionByZero \<and>
         PrepareProposal_inline unmarshal marshal' h req \<noteq> Returns \<lparr>Prepare_Txs = []\<rparr>"
  using zero_stake_panics [OF assms, of h] zero_stake_panics_inline [OF assms, of marshal' h]
  by (simp add: PrepareProposal_def)

theorem PrepareProposal_propagates_zero_stake_witness:
  "PrepareProposal unmarshalJSON (\<lambda>tx. Inr ''tx'') a_proposal_handler
     \<lparr>LocalLastCommit = \<lparr>Round = 0, Votes = []\<rparr>\<rparr> = Panics DivisionByZero \<and>
   PrepareProposal_inline unmarshalJSON (\<lambda>tx. Inr ''tx'') a_proposal_handler
     \<lparr>LocalLastCommit = \<lparr>Round = 0, Votes = []\<rparr>\<rparr> = Panics DivisionByZero"
  using PrepareProposal_propagates_zero_stake [where unmarshal = unmarshalJSON
      and req = "\<lparr>LocalLastCommit = \<lparr>Round = 0, Votes = []\<rparr>\<rparr>"
      and marshal = "\<lambda>tx. Inr ''tx''" and marshal' = "\<lambda>tx. Inr ''tx''"
      and h = a_proposal_handler]
  by (simp add: totalPower_def)

text \<open>
  Claim C2, as stated, fails: \<^verbatim>\<open>compareOraclePrices\<close> returns nil for any two maps, so a
  proposal whose claimed price is 11.00 is accepted although the recomputation from the
  embedded commit-info gives 10.00.
\<close>

theorem ProcessProposal_accepts_mismatch:
  "inflated_tx ''tx'' =
     Inr \<lparr>StakeWeightedPrices = [(''ATOM'', 11000000000000000000)],
          ExtendedCommitInfo = \<lparr>Round = 0, Votes = three_votes\<rparr>\<rparr> \<and>
   computeStakeWeightedOraclePrices unmarshalJSON a_proposal_handler
     \<lparr>Round = 0, Votes = three_votes\<rparr> = Returns (Inr [(''ATOM'', 10000000000000000000)]) \<and>
   [(''ATOM'', 10000000000000000000 :: Dec)] \<noteq> [(''ATOM'', 11000000000000000000)] \<and>
   ProcessProposal inflated_tx unmarshalJSON a_proposal_handler \<lparr>Txs = [''tx'']\<rparr> =
     Returns (\<lparr>Status = ACCEPT\<rparr>, a_proposal_handler)"
  by (simp add: ProcessProposal_def inflated_tx_def three_votes_average compareOraclePrices_def
      SetOraclePrices_def)

text \<open>
  Claim C2, amended. For a proposal whose first transaction decodes as a
  \<^verbatim>\<open>StakeWeightedPrices\<close> record, \<^verbatim>\<open>ProcessProposal\<close> rejects when a vote extension of
  the embedded commit-info fails to decode, and accepts when all of them decode and the
  total voting power is not zero, whatever mapping the proposer claimed.
\<close>

theorem ProcessProposal_verdict:
  assumes "Txs req = tx0 # rest" and "unmarshalT tx0 = Inr injected"
  shows "(\<not> list_all (decodes unmarshal) (Votes (ExtendedCommitInfo injected)) \<longrightarrow>
            (\<exists>h'. ProcessProposal unmarshalT unmarshal h req = Returns (\<lparr>Status = REJECT\<rparr>, h'))) \<and>
         (list_all (decodes unmarshal) (Votes (ExtendedCommitInfo injected)) \<and>
          totalPower (Votes (ExtendedCommitInfo injected)) \<noteq> 0 \<longrightarrow>
            (\<exists>h'. ProcessProposal unmarshalT unmarshal h req = Returns (\<lparr>Status = ACCEPT\<rparr>, h')))"
proof (intro conjI impI)
  assume "\<not> list_all (decodes unmarshal) (Votes (ExtendedCommitInfo injected))"
  with aggregate_cases [of unmarshal "ExtendedCommitInfo injected" h] obtain err where
    "computeStakeWeightedOraclePrices unmarshal h (ExtendedCommitInfo injected) = Returns (Inl err)"
    by blast
  then show "\<exists>h'. ProcessProposal unmarshalT unmarshal h req = Returns (\<lparr>Status = REJECT\<rparr>, h')"
    using assms by (simp add: ProcessProposal_def)
next
  assume "list_all (decodes unmarshal) (Votes (ExtendedCommitInfo injected)) \<and>
          totalPower (Votes (ExtendedCommitInfo injected)) \<noteq> 0"
  with aggregate_cases [of unmarshal "ExtendedCommitInfo injected" h] obtain swp where
    "computeStakeWeightedOraclePrices unmarshal h (ExtendedCommitInfo injected) = Returns (Inr swp)"
    by blast
  then show "\<exists>h'. ProcessProposal unmarshalT unmarshal h req = Returns (\<lparr>Status = ACCEPT\<rparr>, h')"
    using assms by (simp add: ProcessProposal_def compareOraclePrices_def SetOraclePrices_def)
qed

theorem ProcessProposal_verdict_witness:
  "(\<exists>h'. ProcessProposal inflated_tx unmarshalJSON a_proposal_handler \<lparr>Txs = [''tx'']\<rparr> =
      Returns (\<lparr>Status = ACCEPT\<rparr>, h')) \<and>
   (\<exists>h'. ProcessProposal
      (\<lambda>bz. Inr \<lparr>StakeWeightedPrices = [(''ATOM'', 10000000000000000000)],
                 ExtendedCommitInfo = \<lparr>Round = 0, Votes = garbled_votes\<rparr>\<rparr>)
      unmarshalJSON a_proposal_handler \<lparr>Txs = [''tx'']\<rparr> = Returns (\<lparr>Status = REJECT\<rparr>, h'))"
proof -
  have nd: "\<not> list_all (decodes unmarshalJSON) garbled_votes"
    by (simp add: garbled_votes_def vote_def decodes_def unmarshal_not_json)
  have tp: "totalPower three_votes \<noteq> 0"
    by (simp add: totalPower_def three_votes_def vote_def)
  have a: "\<exists>h'. ProcessProposal inflated_tx unmarshalJSON a_proposal_handler \<lparr>Txs = [''tx'']\<rparr> =
      Returns (\<lparr>Status = ACCEPT\<rparr>, h')"
    using ProcessProposal_verdict [where req = "\<lparr>Txs = [''tx'']\<rparr>" and ?tx0.0 = "''tx''" and rest = "[]"
        and unmarshalT = inflated_tx and unmarshal = unmarshalJSON and h = a_proposal_handler
        and injected = "\<lparr>StakeWeightedPrices = [(''ATOM'', 11000000000000000000)],
                ExtendedCommitInfo = \<lparr>Round = 0, Votes = three_votes\<rparr>\<rparr>"]
      three_votes_decode tp
    by (simp add: inflated_tx_def)
  have r: "\<exists>h'. ProcessProposal
      (\<lambda>bz. Inr \<lparr>StakeWeightedPrices = [(''ATOM'', 10000000000000000000)],
                 ExtendedCommitInfo = \<lparr>Round = 0, Votes = garbled_votes\<rparr>\<rparr>)
      unmarshalJSON a_proposal_handler \<lparr>Txs = [''tx'']\<rparr> = Returns (\<lparr>Status = REJECT\<rparr>, h')"
    using ProcessProposal_verdict [where req = "\<lparr>Txs = [''tx'']\<rparr>" and ?tx0.0 = "''tx''" and rest = "[]"
        and unmarshalT = "\<lambda>bz. Inr \<lparr>StakeWeightedPrices = [(''ATOM'', 10000000000000000000)],
                 ExtendedCommitInfo = \<lparr>Round = 0, Votes = garbled_votes\<rparr>\<rparr>"
        and unmarshal = unmarshalJSON and h = a_proposal_handler
        and injected = "\<lparr>StakeWeightedPrices = [(''ATOM'', 10000000000000000000)],
                ExtendedCommitInfo = \<lparr>Round = 0, Votes = garbled_votes\<rparr>\<rparr>"]
      nd
    by simp
  from a r show ?thesis by simp
qed

section \<open>Claims about the vote-extension handler\<close>

text \<open>
  Claim C3, as stated, fails: \<^verbatim>\<open>verifyPrices\<close> returns nil for any price map, so an
  extension with a base that the keeper does not support is accepted.
\<close>

theorem VerifyVoteExtension_accepts_unsupported_base:
  "VerifyVoteExtensionHandler unmarshalJSON a_vote_handler
     \<lparr>Verify_Height = 100,
      Verify_VoteExtension = encodeVoteExt \<lparr>Height = 100, Prices = [(''FOO'', 1)]\<rparr>,
      ValidatorAddress = ''val1''\<rparr> = Inr \<lparr>Verify_Status = VerifyStatus_ACCEPT\<rparr> \<and>
   ''FOO'' \<notin> Base ` set (GetSupportedPairs (FauxOracleKeeper a_vote_handler))"
  by (simp add: VerifyVoteExtensionHandler_def unmarshalJSON_marshalJSON verifyPrices_def
      GetSupportedPairs_def)

text \<open>
  Claim C3, amended. \<^verbatim>\<open>VerifyVoteExtension\<close> accepts exactly when the bytes deserialize
  and the declared height equals the requested one. Bytes that do not deserialize give
  the decode error, a different height gives the height-mismatch error. The bases and the
  prices are not examined.
\<close>

theorem VerifyVoteExtension_verdict:
  "(VerifyVoteExtensionHandler unmarshal h req = Inr \<lparr>Verify_Status = VerifyStatus_ACCEPT\<rparr> \<longleftrightarrow>
      (\<exists>voteExt. unmarshal (Verify_VoteExtension req) = Inr voteExt \<and>
                 Height voteExt = Verify_Height req)) \<and>
   (\<forall>err. unmarshal (Verify_VoteExtension req) = Inl err \<longrightarrow>
      VerifyVoteExtensionHandler unmarshal h req = Inl (FailedToUnmarshal err)) \<and>
   (\<forall>voteExt. unmarshal (Verify_VoteExtension req) = Inr voteExt \<and>
               Height voteExt \<noteq> Verify_Height req \<longrightarrow>
      VerifyVoteExtensionHandler unmarshal h req =
        Inl (HeightMismatch (Verify_Height req) (Height voteExt)))"
  by (cases "unmarshal (Verify_VoteExtension req)")
     (auto simp: VerifyVoteExtensionHandler_def verifyPrices_def)

theorem VerifyVoteExtension_verdict_witness:
  "VerifyVoteExtensionHandler unmarshalJSON a_vote_handler
     \<lparr>Verify_Height = 100,
      Verify_VoteExtension = encodeVoteExt \<lparr>Height = 101, Prices = [(''ATOM'', 10000000000000000000)]\<rparr>,
      ValidatorAddress = ''val1''\<rparr> = Inl (HeightMismatch 100 101) \<and>
   VerifyVoteExtensionHandler unmarshalJSON a_vote_handler
     \<lparr>Verify_Height = 100, Verify_VoteExtension = ''not json'', ValidatorAddress = ''val1''\<rparr>
     = Inl (FailedToUnmarshal SyntaxError) \<and>
   VerifyVoteExtensionHandler unmarshalJSON a_vote_handler
     \<lparr>Verify_Height = 100,
      Verify_VoteExtension = encodeVoteExt \<lparr>Height = 100, Prices = [(''ATOM'', 10000000000000000000)]\<rparr>,
      ValidatorAddress = ''val1''\<rparr> = Inr \<lparr>Verify_Status = VerifyStatus_ACCEPT\<rparr>"
  using
    VerifyVoteExtension_verdict [of unmarshalJSON a_vote_handler
      "\<lparr>Verify_Height = 100,
        Verify_VoteExtension = encodeVoteExt \<lparr>Height = 101, Prices = [(''ATOM'', 10000000000000000000)]\<rparr>,
        ValidatorAddress = ''val1''\<rparr>"]
    VerifyVoteExtension_verdict [of unmarshalJSON a_vote_handler
      "\<lparr>Verify_Height = 100, Verify_VoteExtension = ''not json'', ValidatorAddress = ''val1''\<rparr>"]
    VerifyVoteExtension_verdict [of unmarshalJSON a_vote_handler
      "\<lparr>Verify_Height = 100,
        Verify_VoteExtension = encodeVoteExt \<lparr>Height = 100, Prices = [(''ATOM'', 10000000000000000000)]\<rparr>,
        ValidatorAddress = ''val1''\<rparr>"]
  by (simp add: unmarshalJSON_marshalJSON unmarshal_not_json)

lemma addRequired_set: "set (addRequired pairs requiredRates) = set requiredRates \<union> Base ` set pairs"
  by (induction pairs arbitrary: requiredRates) auto

lemma runProviders_required:
  "runProviders pps fetch (requiredRates, agg, err) = (requiredRates', agg', err') \<Longrightarrow>
   set requiredRates' = set requiredRates \<union> (\<Union>(n, pairs) \<in> set pps. Base ` set pairs)"
proof (induction pps arbitrary: requiredRates agg err)
  case Nil
  then show ?case by simp
next
  case (Cons p pps)
  obtain n pairs where p: "p = (n, pairs)" by (cases p)
  obtain agg1 err1 where t: "providerTask agg n pairs (fetch n) = (agg1, err1)"
    by (cases "providerTask agg n pairs (fetch n)")
  from Cons.prems have
    "runProviders pps fetch (addRequired pairs requiredRates, agg1,
        (case err of None \<Rightarrow> err1 | Some e \<Rightarrow> Some e)) = (requiredRates', agg', err')"
    by (simp add: p t)
  from Cons.IH [OF this] show ?case
    by (auto simp: p addRequired_set)
qed

text \<open>
  Claim C4. When the computed price map has no price for a base of a configured pair,
  \<^verbatim>\<open>ExtendVote\<close> returns an error naming a required base without a price. It returns no
  payload, and the cache of computed prices is as before.
\<close>

theorem ExtendVote_fails_closed:
  assumes "(providerName, pairs) \<in> set (providerPairs h)" and "pair \<in> set pairs"
      and "runProviders (providerPairs h) fetch ([], NewProviderAggregator, None) =
             (requiredRates, providerAgg, waitErr)"
      and "computeOraclePrices (h\<lparr>currentBlock := ExtendVote_Height req, lastPriceSyncTS := now\<rparr>)
             providerAgg = Inr computed"
      and "map_of computed (Base pair) = None"
  shows "\<exists>base. ExtendVoteHandler marshal fetch now h req =
           (Inl (PriceNotFound base),
            h\<lparr>currentBlock := ExtendVote_Height req, lastPriceSyncTS := now\<rparr>) \<and>
           base \<in> set requiredRates \<and> map_of computed base = None"
proof -
  from runProviders_required [OF assms(3)] assms(1,2)
  have "Base pair \<in> set requiredRates" by force
  with assms(5) have "find (\<lambda>base. map_of computed base = None) requiredRates \<noteq> None"
    by (auto simp: find_None_iff)
  then obtain base where
    f: "find (\<lambda>base. map_of computed base = None) requiredRates = Some base" by auto
  then have "base \<in> set requiredRates \<and> map_of computed base = None"
    by (auto simp: find_Some_iff)
  moreover have "ExtendVoteHandler marshal fetch now h req =
           (Inl (PriceNotFound base),
            h\<lparr>currentBlock := ExtendVote_Height req, lastPriceSyncTS := now\<rparr>)"
    using assms(3,4) f by (simp add: ExtendVoteHandler_def Let_def)
  ultimately show ?thesis by blast
qed

theorem ExtendVote_fails_closed_witness:
  "ExtendVoteHandler marshalJSON (\<lambda>providerName. FetchTimeout) 7 a_vote_handler
     \<lparr>ExtendVote_Height = 100\<rparr> =
     (Inl (PriceNotFound ''ATOM''), a_vote_handler\<lparr>currentBlock := 100, lastPriceSyncTS := 7\<rparr>)"
proof -
  have run: "runProviders (providerPairs a_vote_handler) (\<lambda>providerName. FetchTimeout)
      ([], NewProviderAggregator, None) =
      ([''ATOM''], NewProviderAggregator, Some (ProviderTimedOut ''Binance''))"
    by (simp add: a_vote_handler_def providerTask_def)
  from ExtendVote_fails_closed [where h = a_vote_handler and providerName = "''Binance''"
      and pairs = "[\<lparr>Base = ''ATOM'', Quote = ''USD''\<rparr>]" and pair = "\<lparr>Base = ''ATOM'', Quote = ''USD''\<rparr>"
      and fetch = "\<lambda>providerName. FetchTimeout" and req = "\<lparr>ExtendVote_Height = 100\<rparr>"
      and now = 7 and computed = "[]" and marshal = marshalJSON, OF _ _ run]
  show ?thesis
    by (simp add: a_vote_handler_def computeOraclePrices_def)
qed

text \<open>
  Claim C5, as stated, fails: \<^verbatim>\<open>computeOraclePrices\<close> returns no price whatever the
  aggregator holds. With one provider whose response has a price and a candle for its
  pair, both recorded by the aggregator, \<^verbatim>\<open>ExtendVote\<close> still returns the error for the
  missing base.
\<close>

theorem ExtendVote_errors_on_full_responses:
  "lookup2 (providerPrices (fst (snd (runProviders (providerPairs a_vote_handler) full_response
       ([], NewProviderAggregator, None))))) ''Binance'' ''ATOM'' =
     Some \<lparr>Price = 10000000000000000000, Volume = 24000000000000000000000\<rparr> \<and>
   runProviders (providerPairs a_vote_handler) full_response ([], NewProviderAggregator, None) =
     ([''ATOM''],
      fst (snd (runProviders (providerPairs a_vote_handler) full_response
        ([], NewProviderAggregator, None))), None) \<and>
   ExtendVoteHandler marshalJSON full_response 7 a_vote_handler \<lparr>ExtendVote_Height = 100\<rparr> =
     (Inl (PriceNotFound ''ATOM''), a_vote_handler\<lparr>currentBlock := 100, lastPriceSyncTS := 7\<rparr>)"
  by (simp add: a_vote_handler_def full_response_def providerTask_def
      SetProviderTickerPricesAndCandles_def NewProviderAggregator_def CurrencyPair_String_def
      lookup2_def ExtendVoteHandler_def computeOraclePrices_def)

text \<open>
  Claim C5, amended. \<^verbatim>\<open>ExtendVote\<close> returns a payload exactly when
  \<^verbatim>\<open>computeOraclePrices\<close> returns a price map that has every required base and the
  vote extension serializes. The payload is then the serialized extension with the
  requested height and that map, and the map is cached under the height. With the price
  formula of the source this happens only when no base is required.
\<close>

theorem ExtendVote_payload:
  assumes "runProviders (providerPairs h) fetch ([], NewProviderAggregator, None) =
             (requiredRates, providerAgg, waitErr)"
  shows "(ExtendVoteHandler marshal fetch now h req = (Inr resp, h') \<longleftrightarrow>
            (\<exists>computed bz.
               computeOraclePrices (h\<lparr>currentBlock := ExtendVote_Height req, lastPriceSyncTS := now\<rparr>)
                 providerAgg = Inr computed \<and>
               (\<forall>base \<in> set requiredRates. map_of computed base \<noteq> None) \<and>
               marshal \<lparr>Height = ExtendVote_Height req, Prices = computed\<rparr> = Inr bz \<and>
               resp = \<lparr>ExtendVote_VoteExtension = bz\<rparr> \<and>
               h' = h\<lparr>currentBlock := ExtendVote_Height req, lastPriceSyncTS := now,
                      computedPrices := (computedPrices h)(ExtendVote_Height req \<mapsto> computed)\<rparr>)) \<and>
         (ExtendVoteHandler marshal fetch now h req = (Inr resp, h') \<longrightarrow> requiredRates = [])"
proof -
  let ?h1 = "h\<lparr>currentBlock := ExtendVote_Height req, lastPriceSyncTS := now\<rparr>"
  have iff: "ExtendVoteHandler marshal fetch now h req = (Inr resp, h') \<longleftrightarrow>
            (\<exists>computed bz.
               computeOraclePrices ?h1 providerAgg = Inr computed \<and>
               (\<forall>base \<in> set requiredRates. map_of computed base \<noteq> None) \<and>
               marshal \<lparr>Height = ExtendVote_Height req, Prices = computed\<rparr> = Inr bz \<and>
               resp = \<lparr>ExtendVote_VoteExtension = bz\<rparr> \<and>
               h' = h\<lparr>currentBlock := ExtendVote_Height req, lastPriceSyncTS := now,
                      computedPrices := (computedPrices h)(ExtendVote_Height req \<mapsto> computed)\<rparr>)"
  proof (cases "computeOraclePrices ?h1 providerAgg")
    case (Inl err)
    then show ?thesis using assms by (simp add: ExtendVoteHandler_def Let_def)
  next
    case (Inr computed)
    show ?thesis
    proof (cases "find (\<lambda>base. map_of computed base = None) requiredRates")
      case (Some base)
      then have "\<not> (\<forall>base \<in> set requiredRates. map_of computed base \<noteq> None)"
        by (auto simp: find_Some_iff)
      then show ?thesis using assms Inr Some by (simp add: ExtendVoteHandler_def Let_def)
    next
      case None
      then have all: "\<forall>base \<in> set requiredRates. map_of computed base \<noteq> None"
        by (auto simp: find_None_iff)
      show ?thesis
      proof (cases "marshal \<lparr>Height = ExtendVote_Height req, Prices = computed\<rparr>")
        case (Inl err)
        then show ?thesis using assms Inr None by (simp add: ExtendVoteHandler_def Let_def)
      next
        case marshalled: (Inr bz)
        then show ?thesis
          using assms Inr None all by (auto simp: ExtendVoteHandler_def Let_def)
      qed
    qed
  qed
  have "requiredRates = []" if "ExtendVoteHandler marshal fetch now h req = (Inr resp, h')"
  proof -
    from that iff have "\<forall>base \<in> set requiredRates. map_of [] base \<noteq> (None :: Dec option)"
      by (auto simp: computeOraclePrices_def)
    then show ?thesis by (cases requiredRates) auto
  qed
  with iff show ?thesis by blast
qed

theorem ExtendVote_payload_witness:
  "ExtendVoteHandler marshalJSON full_response 7 idle_vote_handler \<lparr>ExtendVote_Height = 100\<rparr> =
     (Inr \<lparr>ExtendVote_VoteExtension = encodeVoteExt \<lparr>Height = 100, Prices = []\<rparr>\<rparr>,
      idle_vote_handler\<lparr>currentBlock := 100, lastPriceSyncTS := 7,
                        computedPrices := [100 \<mapsto> []]\<rparr>)"
proof -
  have run: "runProviders (providerPairs idle_vote_handler) full_response
      ([], NewProviderAggregator, None) = ([], NewProviderAggregator, None)"
    by (simp add: idle_vote_handler_def)
  from ExtendVote_payload [where h = idle_vote_handler and fetch = full_response
      and req = "\<lparr>ExtendVote_Height = 100\<rparr>" and now = 7 and marshal = marshalJSON
      and resp = "\<lparr>ExtendVote_VoteExtension = encodeVoteExt \<lparr>Height = 100, Prices = []\<rparr>\<rparr>"
      and h' = "idle_vote_handler\<lparr>currentBlock := 100, lastPriceSyncTS := 7,
                        computedPrices := [100 \<mapsto> []]\<rparr>", OF run]
  show ?thesis
    by (simp add: computeOraclePrices_def marshalJSON_def idle_vote_handler_def)
qed

end
